theory Spec2Isabelle
  imports Main "HOL-Library.Word"
begin

section \<open>Failures: Go errors and run-time panics\<close>

text \<open>
  The mapping functions of \<^verbatim>\<open>main.go\<close> and \<^verbatim>\<open>mapSchema.go\<close> return Go values; the
  definition mapper and the document assembler also return an \<^verbatim>\<open>error\<close>. A nil
  pointer dereference and a slice expression out of range are run-time panics. Both are
  values of the model: a function that can fail returns \<open>failure + 'a\<close>.
\<close>

datatype go_error =
    Errorf_unexpected_relation string
  | Errorf_failed_to_export string go_error
  | Errorf_unable_to_serialize go_error
  | Errorf_unable_to_write go_error
  | External_error string

datatype panic = nil_pointer_dereference | slice_bounds_out_of_range

datatype failure = Panic panic | Error go_error

section \<open>The standard library: \<^verbatim>\<open>strings.TrimSpace\<close>, \<^verbatim>\<open>strings.SplitN\<close>, \<^verbatim>\<open>regexp\<close>\<close>

text \<open>
  A Go string is a byte sequence: \<open>string\<close>. \<^verbatim>\<open>strings.TrimSpace\<close> removes the leading
  and the trailing white space as \<^verbatim>\<open>unicode.IsSpace\<close> defines it, reading the bytes as
  UTF-8: the six ASCII characters, U+0085 and U+00A0, U+1680, U+2000 to U+200A, U+2028,
  U+2029, U+202F, U+205F and U+3000. A byte sequence that is no valid encoding of one of
  them stops the trimming.
\<close>

definition asciiSpace :: "string list" where
  "asciiSpace = [[CHR 0x09], [CHR 0x0A], [CHR 0x0B], [CHR 0x0C], [CHR 0x0D], [CHR 0x20]]"

definition White_Space :: "string list" where
  "White_Space = asciiSpace @
     [[CHR 0xC2, CHR 0x85], [CHR 0xC2, CHR 0xA0], [CHR 0xE1, CHR 0x9A, CHR 0x80]] @
     map (\<lambda>b. [CHR 0xE2, CHR 0x80, b])
       [CHR 0x80, CHR 0x81, CHR 0x82, CHR 0x83, CHR 0x84, CHR 0x85, CHR 0x86, CHR 0x87,
        CHR 0x88, CHR 0x89, CHR 0x8A, CHR 0xA8, CHR 0xA9, CHR 0xAF] @
     [[CHR 0xE2, CHR 0x81, CHR 0x9F], [CHR 0xE3, CHR 0x80, CHR 0x80]]"

text \<open>The number of bytes of the white-space rune the string starts with, 0 if none.\<close>

definition leadingSpace :: "string list \<Rightarrow> string \<Rightarrow> nat" where
  "leadingSpace runes s =
     (case List.find (\<lambda>r. take (length r) s = r) runes of
        None \<Rightarrow> 0
      | Some r \<Rightarrow> length r)"

function TrimLeftFunc :: "string list \<Rightarrow> string \<Rightarrow> string" where
  "TrimLeftFunc runes s =
     (if leadingSpace runes s = 0 then s
      else TrimLeftFunc runes (drop (leadingSpace runes s) s))"
  by pat_completeness auto
termination
proof (relation "measure (\<lambda>(runes, s). length s)")
  show "wf (measure (\<lambda>(runes, s). length s))" by simp
next
  fix runes :: "string list" and s :: string
  assume "leadingSpace runes s \<noteq> 0"
  moreover have "s \<noteq> []"
  proof
    assume "s = []"
    then have "leadingSpace runes s = 0"
      by (auto simp: leadingSpace_def split: option.splits dest: find_Some_iff [THEN iffD1])
    with \<open>leadingSpace runes s \<noteq> 0\<close> show False by simp
  qed
  ultimately show "((runes, drop (leadingSpace runes s) s), (runes, s))
      \<in> measure (\<lambda>(runes, s). length s)"
    by simp
qed

declare TrimLeftFunc.simps [simp del]

text \<open>
  The trailing white space is read backwards (\<^verbatim>\<open>utf8.DecodeLastRuneInString\<close>): the
  string ends with the encoding of a white-space rune exactly when its reverse starts
  with the reversed encoding.
\<close>

definition TrimRightFunc :: "string list \<Rightarrow> string \<Rightarrow> string" where
  "TrimRightFunc runes s = rev (TrimLeftFunc (map rev runes) (rev s))"

definition TrimSpace :: "string \<Rightarrow> string" where
  "TrimSpace s = TrimRightFunc White_Space (TrimLeftFunc White_Space s)"


text \<open>
  \<^verbatim>\<open>strings.Index\<close>: the byte offset of the first occurrence of \<open>sep\<close> in \<open>s\<close>.
\<close>

fun Index :: "string \<Rightarrow> string \<Rightarrow> nat option" where
  "Index [] sep = (if sep = [] then Some 0 else None)"
| "Index (c # cs) sep =
     (if take (length sep) (c # cs) = sep then Some 0
      else map_option Suc (Index cs sep))"

text \<open>
  \<^verbatim>\<open>strings.SplitN(s, sep, n)\<close> for a non-empty separator and \<open>n \<ge> 0\<close>: at most \<open>n\<close>
  substrings, the last one the unsplit remainder (\<^verbatim>\<open>genSplit\<close> of the library; the
  source calls it with the separator \<^verbatim>\<open>"/"\<close> and \<open>n = 2\<close>).
\<close>

fun SplitN :: "string \<Rightarrow> string \<Rightarrow> nat \<Rightarrow> string list" where
  "SplitN s sep 0 = []"
| "SplitN s sep (Suc 0) = [s]"
| "SplitN s sep (Suc (Suc n)) =
     (case Index s sep of
        None \<Rightarrow> [s]
      | Some m \<Rightarrow> take m s # SplitN (drop (m + length sep) s) sep (Suc n))"

text \<open>
  Regular expressions, as far as \<^verbatim>\<open>commentRegex\<close> needs them: literal bytes,
  concatenation, alternation and the greedy \<^verbatim>\<open>?\<close>. \<open>matches r s\<close> lists the lengths of
  the matches of \<open>r\<close> at the start of \<open>s\<close> in the order of preference of Go's
  leftmost-first matching (an earlier alternative first, the greedy choice first); the
  match the library reports is the head of the list.
\<close>

datatype regex =
    Lit char
  | Seq regex regex
  | Alt regex regex
  | Opt regex

fun matches :: "regex \<Rightarrow> string \<Rightarrow> nat list" where
  "matches (Lit c) s = (case s of [] \<Rightarrow> [] | x # xs \<Rightarrow> if x = c then [1] else [])"
| "matches (Seq a b) s =
     concat (map (\<lambda>i. map (\<lambda>j. i + j) (matches b (drop i s))) (matches a s))"
| "matches (Alt a b) s = matches a s @ matches b s"
| "matches (Opt a) s = matches a s @ [0]"

definition firstMatch :: "regex \<Rightarrow> string \<Rightarrow> nat option" where
  "firstMatch r s = (case matches r s of [] \<Rightarrow> None | n # _ \<Rightarrow> Some n)"

text \<open>
  \<^verbatim>\<open>(*Regexp).ReplaceAllString(src, "")\<close>: the successive leftmost matches are removed.
  After an empty match the library copies one byte and goes on.
\<close>

function ReplaceAllString_empty :: "regex \<Rightarrow> string \<Rightarrow> string" where
  "ReplaceAllString_empty r [] = []"
| "ReplaceAllString_empty r (c # cs) =
     (case firstMatch r (c # cs) of
        None \<Rightarrow> c # ReplaceAllString_empty r cs
      | Some 0 \<Rightarrow> c # ReplaceAllString_empty r cs
      | Some (Suc n) \<Rightarrow> ReplaceAllString_empty r (drop n cs))"
  by pat_completeness auto
termination
  by (relation "measure (\<lambda>(r, s). length s)") auto


text \<open>
  \<^verbatim>\<open>commentRegex\<close> of \<^verbatim>\<open>mapSchema.go\<close>:
  \<^verbatim>\<open>(/[*]{1,2} ?|// ?| ?[*] | ?[*]?/)\<close>. The bounded repetition \<^verbatim>\<open>[*]{1,2}\<close> is one star
  and a greedy optional second one.
\<close>

definition commentRegex :: regex where
  "commentRegex =
     Alt (Seq (Lit CHR ''/'') (Seq (Seq (Lit CHR ''*'') (Opt (Lit CHR ''*''))) (Opt (Lit CHR '' ''))))
    (Alt (Seq (Lit CHR ''/'') (Seq (Lit CHR ''/'') (Opt (Lit CHR '' ''))))
    (Alt (Seq (Opt (Lit CHR '' '')) (Seq (Lit CHR ''*'') (Lit CHR '' '')))
         (Seq (Opt (Lit CHR '' '')) (Seq (Opt (Lit CHR ''*'')) (Lit CHR ''/'')))))"

section \<open>The compiled schema (input)\<close>

text \<open>
  The input is the protocol-buffer tree of the schema compiler. A message is a record or
  a datatype; a singular message field that may be unset is an \<open>option\<close> (the nil pointer
  is \<open>None\<close>); a \<^verbatim>\<open>oneof\<close> is a datatype with one constructor for each alternative the
  mappers read. The elements of a repeated field and the values of a map field are never
  nil. Fields that several messages share are prefixed: \<open>def_\<close> for
  \<^verbatim>\<open>NamespaceDefinition\<close>, \<open>rel_\<close> for \<^verbatim>\<open>corev1.Relation\<close>, \<open>cav_\<close> for
  \<^verbatim>\<open>CaveatDefinition\<close>.
\<close>

datatype Any = Any (TypeUrl: string) (Value: string)

record Metadata =
  MetadataMessage :: "Any list"

text \<open>The getter is nil-safe: it returns no message for the nil pointer.\<close>

definition GetMetadataMessage :: "Metadata option \<Rightarrow> Any list" where
  "GetMetadataMessage metaData =
     (case metaData of None \<Rightarrow> [] | Some m \<Rightarrow> MetadataMessage m)"

record ComputedUserset =
  ComputedUserset_Relation :: string

record Tupleset =
  Tupleset_Relation :: string

record TupleToUserset =
  Tupleset :: "Tupleset option"
  ComputedUserset :: "ComputedUserset option"

text \<open>
  \<^verbatim>\<open>UsersetRewrite\<close> holds the \<^verbatim>\<open>oneof\<close> of its operation, each alternative a
  \<^verbatim>\<open>SetOperation\<close>, which is the list of its children; \<open>UsersetRewrite_none\<close> is the
  rewrite no operation of which is set (every getter of the three returns nil). A child
  holds the \<^verbatim>\<open>oneof\<close> of its type; \<open>Child_other\<close> stands for a child none of whose three
  getters the mapper calls returns a message: the \<^verbatim>\<open>oneof\<close> is unset, or holds another
  alternative of the library.
\<close>

datatype UsersetRewrite =
    UsersetRewrite_Union "SetOperation_Child list"
  | UsersetRewrite_Intersection "SetOperation_Child list"
  | UsersetRewrite_Exclusion "SetOperation_Child list"
  | UsersetRewrite_none
and SetOperation_Child =
    Child_ComputedUserset ComputedUserset
  | Child_TupleToUserset TupleToUserset
  | Child_UsersetRewrite UsersetRewrite
  | Child_other

record AllowedCaveat =
  CaveatName :: string

datatype RelationOrWildcard =
    AllowedRelation_Relation string
  | AllowedRelation_PublicWildcard

record AllowedRelation =
  ar_Namespace :: string
  RelationOrWildcard :: "RelationOrWildcard option"
  RequiredCaveat :: "AllowedCaveat option"

record TypeInformation =
  AllowedDirectRelations :: "AllowedRelation list"

record core_Relation =
  rel_Name :: string
  rel_UsersetRewrite :: "UsersetRewrite option"
  rel_TypeInformation :: "TypeInformation option"
  rel_Metadata :: "Metadata option"

record NamespaceDefinition =
  def_Name :: string
  def_Relation :: "core_Relation list"
  def_Metadata :: "Metadata option"

record CaveatTypeReference =
  TypeName :: string

text \<open>
  \<^verbatim>\<open>ParameterTypes\<close> is a Go map: its entries, with distinct keys, in the order in which
  the \<^verbatim>\<open>range\<close> statement visits them (an order the language leaves open).
\<close>

record CaveatDefinition =
  cav_Name :: string
  ParameterTypes :: "(string \<times> CaveatTypeReference) list"
  cav_Metadata :: "Metadata option"

record CompiledSchema =
  ObjectDefinitions :: "NamespaceDefinition list"
  CaveatDefinitions :: "CaveatDefinition list"

text \<open>
  \<^verbatim>\<open>RelationMetadata_RelationKind\<close> is a 32-bit enumeration. The classification
  \<^verbatim>\<open>namespace.GetRelationKind\<close> belongs to the library: the mappers take it as the
  parameter \<open>GetRelationKind\<close>.
\<close>

type_synonym RelationKind = "32 word"

definition RelationMetadata_UNKNOWN_KIND :: RelationKind where
  "RelationMetadata_UNKNOWN_KIND = 0"

definition RelationMetadata_RELATION :: RelationKind where
  "RelationMetadata_RELATION = 1"

definition RelationMetadata_PERMISSION :: RelationKind where
  "RelationMetadata_PERMISSION = 2"

section \<open>The document model (output)\<close>

text \<open>
  The structs of \<^verbatim>\<open>main.go\<close>. A \<^verbatim>\<open>*UserSet\<close> may be nil: \<open>UserSet option\<close>. A nil slice
  and an empty one are both \<open>[]\<close>. The fields of \<^verbatim>\<open>UserSet\<close> keep their names; the others
  are prefixed with the name of their struct.
\<close>

record RelationType =
  RelationType_Type :: string
  RelationType_Relation :: string
  RelationType_Caveat :: string

record Relation =
  Relation_Name :: string
  Relation_Types :: "RelationType list"
  Relation_Comment :: string

datatype UserSet =
  UserSet (Operation: string) (Relation: string) (Permission: string)
    (Children: "UserSet option list")

record Permission =
  Permission_Name :: string
  Permission_UserSet :: "UserSet option"
  Permission_Comment :: string

record Definition =
  Definition_Name :: string
  Definition_Namespace :: string
  Definition_Relations :: "Relation list"
  Definition_Permissions :: "Permission list"
  Definition_Comment :: string

record Caveat =
  Caveat_Name :: string
  Caveat_Parameters :: "string list"
  Caveat_Comment :: string

record Schema =
  Schema_Definitions :: "Definition list"
  Schema_Caveats :: "Caveat list"

text \<open>
  The structs of \<^verbatim>\<open>mapSchema.go\<close> that differ (prefix \<open>ms_\<close>): a permission has no
  \<^verbatim>\<open>UserSet\<close>, and the parameters of a caveat are a map from name to type name.
\<close>

record ms_Permission =
  ms_Permission_Name :: string
  ms_Permission_Comment :: string

record ms_Definition =
  ms_Definition_Name :: string
  ms_Definition_Namespace :: string
  ms_Definition_Relations :: "Relation list"
  ms_Definition_Permissions :: "ms_Permission list"
  ms_Definition_Comment :: string

record ms_Caveat =
  ms_Caveat_Name :: string
  ms_Caveat_Parameters :: "string \<rightharpoonup> string"
  ms_Caveat_Comment :: string

section \<open>The mappers of \<^verbatim>\<open>main.go\<close>\<close>

subsection \<open>\<^verbatim>\<open>getMetadataComments\<close>\<close>

definition DocCommentTypeUrl :: string where
  "DocCommentTypeUrl = ''type.googleapis.com/impl.v1.DocComment''"

text \<open>
  The loop over the attachments, \<open>comment\<close> its accumulator. The slice expression
  \<^verbatim>\<open>d.GetValue()[2:]\<close> panics when the payload has fewer than two bytes.
\<close>

fun getMetadataComments_range :: "Any list \<Rightarrow> string \<Rightarrow> failure + string" where
  "getMetadataComments_range [] comment = Inr comment"
| "getMetadataComments_range (d # ds) comment =
     (if TypeUrl d = DocCommentTypeUrl then
        (if length (Value d) < 2 then Inl (Panic slice_bounds_out_of_range)
         else getMetadataComments_range ds (comment @ drop 2 (Value d) @ ''\<newline>''))
      else getMetadataComments_range ds comment)"

definition getMetadataComments :: "Metadata option \<Rightarrow> failure + string" where
  "getMetadataComments metaData =
     (case getMetadataComments_range (GetMetadataMessage metaData) [] of
        Inl e \<Rightarrow> Inl e
      | Inr comment \<Rightarrow> Inr (TrimSpace comment))"

subsection \<open>\<^verbatim>\<open>mapRelationType\<close> and \<^verbatim>\<open>mapRelation\<close>\<close>

text \<open>
  The type assertion to \<^verbatim>\<open>*AllowedRelation_Relation\<close> fails for the wildcard and for
  the unset \<^verbatim>\<open>oneof\<close>.
\<close>

definition mapRelationType :: "AllowedRelation \<Rightarrow> RelationType" where
  "mapRelationType relationType =
     (let relationName =
            (case RelationOrWildcard relationType of
               Some (AllowedRelation_Relation r) \<Rightarrow> if r = ''...'' then [] else r
             | _ \<Rightarrow> ''*'');
          caveatName =
            (case RequiredCaveat relationType of
               Some caveat \<Rightarrow> CaveatName caveat
             | None \<Rightarrow> [])
      in \<lparr>RelationType_Type = ar_Namespace relationType,
          RelationType_Relation = relationName,
          RelationType_Caveat = caveatName\<rparr>)"

text \<open>
  \<^verbatim>\<open>relation.TypeInformation.AllowedDirectRelations\<close> reads through the pointer
  \<^verbatim>\<open>TypeInformation\<close>: a nil pointer dereference when it is unset.
\<close>

definition mapRelation :: "core_Relation \<Rightarrow> failure + Relation" where
  "mapRelation relation =
     (case rel_TypeInformation relation of
        None \<Rightarrow> Inl (Panic nil_pointer_dereference)
      | Some ti \<Rightarrow>
          (case getMetadataComments (rel_Metadata relation) of
             Inl e \<Rightarrow> Inl e
           | Inr comment \<Rightarrow>
               Inr \<lparr>Relation_Name = rel_Name relation,
                    Relation_Types = map mapRelationType (AllowedDirectRelations ti),
                    Relation_Comment = comment\<rparr>))"

subsection \<open>\<^verbatim>\<open>mapUserSet\<close> and \<^verbatim>\<open>mapUserSetChild\<close>\<close>

text \<open>
  \<open>mapUserSet\<close> takes the pointer to the rewrite (\<open>None\<close> is nil, for which the getters
  return nil). For each child \<open>mapUserSetChild\<close> appends a leaf for a computed userset, a
  leaf with both names for a tuple-to-userset (reading through the pointers
  \<^verbatim>\<open>Tupleset\<close> and \<^verbatim>\<open>ComputedUserset\<close>), and the result of \<open>mapUserSet\<close>, nil or not, for
  a nested rewrite; the three tests are independent, and a \<^verbatim>\<open>oneof\<close> passes at most one.
  An unset string field of a \<^verbatim>\<open>UserSet\<close> literal is the empty string.
\<close>

fun mapUserSet :: "UsersetRewrite option \<Rightarrow> failure + UserSet option"
  and mapUserSetChild :: "SetOperation_Child list \<Rightarrow> failure + UserSet option list" where
  "mapUserSet None = Inr None"
| "mapUserSet (Some (UsersetRewrite_Union children)) =
     (case mapUserSetChild children of
        Inl e \<Rightarrow> Inl e
      | Inr sets \<Rightarrow> Inr (Some (UserSet ''union'' [] [] sets)))"
| "mapUserSet (Some (UsersetRewrite_Intersection children)) =
     (case mapUserSetChild children of
        Inl e \<Rightarrow> Inl e
      | Inr sets \<Rightarrow> Inr (Some (UserSet ''intersection'' [] [] sets)))"
| "mapUserSet (Some (UsersetRewrite_Exclusion children)) =
     (case mapUserSetChild children of
        Inl e \<Rightarrow> Inl e
      | Inr sets \<Rightarrow> Inr (Some (UserSet ''exclusion'' [] [] sets)))"
| "mapUserSet (Some UsersetRewrite_none) = Inr None"
| "mapUserSetChild [] = Inr []"
| "mapUserSetChild (Child_ComputedUserset computed # children) =
     (case mapUserSetChild children of
        Inl e \<Rightarrow> Inl e
      | Inr sets \<Rightarrow>
          Inr (Some (UserSet [] (ComputedUserset_Relation computed) [] []) # sets))"
| "mapUserSetChild (Child_TupleToUserset tuple # children) =
     (case Tupleset tuple of
        None \<Rightarrow> Inl (Panic nil_pointer_dereference)
      | Some tupleset \<Rightarrow>
          (case ComputedUserset tuple of
             None \<Rightarrow> Inl (Panic nil_pointer_dereference)
           | Some computed \<Rightarrow>
               (case mapUserSetChild children of
                  Inl e \<Rightarrow> Inl e
                | Inr sets \<Rightarrow>
                    Inr (Some (UserSet [] (Tupleset_Relation tupleset)
                                 (ComputedUserset_Relation computed) []) # sets))))"
| "mapUserSetChild (Child_UsersetRewrite set' # children) =
     (case mapUserSet (Some set') of
        Inl e \<Rightarrow> Inl e
      | Inr u \<Rightarrow>
          (case mapUserSetChild children of
             Inl e \<Rightarrow> Inl e
           | Inr sets \<Rightarrow> Inr (u # sets)))"
| "mapUserSetChild (Child_other # children) = mapUserSetChild children"

subsection \<open>\<^verbatim>\<open>mapPermission\<close>\<close>

text \<open>The fields of the struct literal are evaluated in their order.\<close>

definition mapPermission :: "core_Relation \<Rightarrow> failure + Permission" where
  "mapPermission relation =
     (case mapUserSet (rel_UsersetRewrite relation) of
        Inl e \<Rightarrow> Inl e
      | Inr userSet \<Rightarrow>
          (case getMetadataComments (rel_Metadata relation) of
             Inl e \<Rightarrow> Inl e
           | Inr comment \<Rightarrow>
               Inr \<lparr>Permission_Name = rel_Name relation,
                    Permission_UserSet = userSet,
                    Permission_Comment = comment\<rparr>))"

subsection \<open>\<^verbatim>\<open>mapDefinition\<close>\<close>

text \<open>
  The loop over the relations of a definition, with the two slices it appends to. A
  relation that is neither a permission nor a relation ends the call with an error.
\<close>

fun mapDefinition_range ::
  "(core_Relation \<Rightarrow> RelationKind) \<Rightarrow> core_Relation list \<Rightarrow> Relation list \<Rightarrow> Permission list \<Rightarrow>
   failure + (Relation list \<times> Permission list)" where
  "mapDefinition_range GetRelationKind [] relations permissions = Inr (relations, permissions)"
| "mapDefinition_range GetRelationKind (r # rs) relations permissions =
     (if GetRelationKind r = RelationMetadata_PERMISSION then
        (case mapPermission r of
           Inl e \<Rightarrow> Inl e
         | Inr p \<Rightarrow> mapDefinition_range GetRelationKind rs relations (permissions @ [p]))
      else if GetRelationKind r = RelationMetadata_RELATION then
        (case mapRelation r of
           Inl e \<Rightarrow> Inl e
         | Inr p \<Rightarrow> mapDefinition_range GetRelationKind rs (relations @ [p]) permissions)
      else Inl (Error (Errorf_unexpected_relation (rel_Name r))))"

definition mapDefinition ::
  "(core_Relation \<Rightarrow> RelationKind) \<Rightarrow> NamespaceDefinition \<Rightarrow> failure + Definition" where
  "mapDefinition GetRelationKind def =
     (case mapDefinition_range GetRelationKind (def_Relation def) [] [] of
        Inl e \<Rightarrow> Inl e
      | Inr (relations, permissions) \<Rightarrow>
          (let splits = SplitN (def_Name def) ''/'' 2;
               name = (if length splits = 2 then splits ! 1 else splits ! 0);
               namespace = (if length splits = 2 then splits ! 0 else [])
           in case getMetadataComments (def_Metadata def) of
                Inl e \<Rightarrow> Inl e
              | Inr comment \<Rightarrow>
                  Inr \<lparr>Definition_Name = name,
                       Definition_Namespace = namespace,
                       Definition_Relations = relations,
                       Definition_Permissions = permissions,
                       Definition_Comment = comment\<rparr>))"

subsection \<open>\<^verbatim>\<open>mapCaveat\<close>\<close>

definition mapCaveat :: "CaveatDefinition \<Rightarrow> failure + Caveat" where
  "mapCaveat caveat =
     (let parameters = map (\<lambda>(key, t). TypeName t) (ParameterTypes caveat)
      in case getMetadataComments (cav_Metadata caveat) of
           Inl e \<Rightarrow> Inl e
         | Inr comment \<Rightarrow>
             Inr \<lparr>Caveat_Name = cav_Name caveat,
                  Caveat_Parameters = parameters,
                  Caveat_Comment = comment\<rparr>)"

subsection \<open>\<^verbatim>\<open>WriteSchemaTo\<close>\<close>

text \<open>
  The two loops of the document assembler. An error of \<open>mapDefinition\<close> is wrapped with
  the name of the definition and returned at once; a panic unwinds.
\<close>

fun WriteSchemaTo_definitions ::
  "(core_Relation \<Rightarrow> RelationKind) \<Rightarrow> NamespaceDefinition list \<Rightarrow> Definition list \<Rightarrow>
   failure + Definition list" where
  "WriteSchemaTo_definitions GetRelationKind [] definitions = Inr definitions"
| "WriteSchemaTo_definitions GetRelationKind (def # defs) definitions =
     (case mapDefinition GetRelationKind def of
        Inl (Error err) \<Rightarrow> Inl (Error (Errorf_failed_to_export (def_Name def) err))
      | Inl (Panic p) \<Rightarrow> Inl (Panic p)
      | Inr o' \<Rightarrow> WriteSchemaTo_definitions GetRelationKind defs (definitions @ [o']))"

fun WriteSchemaTo_caveats :: "CaveatDefinition list \<Rightarrow> Caveat list \<Rightarrow> failure + Caveat list" where
  "WriteSchemaTo_caveats [] caveats = Inr caveats"
| "WriteSchemaTo_caveats (caveat # cs) caveats =
     (case mapCaveat caveat of
        Inl e \<Rightarrow> Inl e
      | Inr o' \<Rightarrow> WriteSchemaTo_caveats cs (caveats @ [o']))"

text \<open>
  The encoder \<^verbatim>\<open>json.Marshal\<close> and the writer belong to the caller: \<open>Marshal\<close> returns
  the bytes or an error, \<open>Write\<close> takes the writer and the bytes and returns the writer
  with the error, if any. The result is the writer as the call leaves it and the
  failure, \<open>None\<close> for the nil error.
\<close>

definition WriteSchemaTo ::
  "(core_Relation \<Rightarrow> RelationKind) \<Rightarrow> (Schema \<Rightarrow> go_error + string) \<Rightarrow>
   ('w \<Rightarrow> string \<Rightarrow> 'w \<times> go_error option) \<Rightarrow> CompiledSchema \<Rightarrow> 'w \<Rightarrow> 'w \<times> failure option" where
  "WriteSchemaTo GetRelationKind Marshal Write schema w =
     (case WriteSchemaTo_definitions GetRelationKind (ObjectDefinitions schema) [] of
        Inl e \<Rightarrow> (w, Some e)
      | Inr definitions \<Rightarrow>
          (case WriteSchemaTo_caveats (CaveatDefinitions schema) [] of
             Inl e \<Rightarrow> (w, Some e)
           | Inr caveats \<Rightarrow>
               (case Marshal \<lparr>Schema_Definitions = definitions, Schema_Caveats = caveats\<rparr> of
                  Inl err \<Rightarrow> (w, Some (Error (Errorf_unable_to_serialize err)))
                | Inr data \<Rightarrow>
                    (case Write w data of
                       (w', Some err) \<Rightarrow> (w', Some (Error (Errorf_unable_to_write err)))
                     | (w', None) \<Rightarrow> (w', None)))))"

section \<open>The mappers of \<^verbatim>\<open>mapSchema.go\<close>\<close>

text \<open>
  \<^verbatim>\<open>mapRelationType\<close> is the same function in both files. The others call the comment
  extractor of their file, which here removes the matches of \<open>commentRegex\<close> from each
  payload.
\<close>

fun ms_getMetadataComments_range :: "Any list \<Rightarrow> string \<Rightarrow> failure + string" where
  "ms_getMetadataComments_range [] comment = Inr comment"
| "ms_getMetadataComments_range (d # ds) comment =
     (if TypeUrl d = DocCommentTypeUrl then
        (if length (Value d) < 2 then Inl (Panic slice_bounds_out_of_range)
         else ms_getMetadataComments_range ds
                (comment @ ReplaceAllString_empty commentRegex (drop 2 (Value d)) @ ''\<newline>''))
      else ms_getMetadataComments_range ds comment)"

definition ms_getMetadataComments :: "Metadata option \<Rightarrow> failure + string" where
  "ms_getMetadataComments metaData =
     (case ms_getMetadataComments_range (GetMetadataMessage metaData) [] of
        Inl e \<Rightarrow> Inl e
      | Inr comment \<Rightarrow> Inr (TrimSpace comment))"

definition ms_mapRelation :: "core_Relation \<Rightarrow> failure + Relation" where
  "ms_mapRelation relation =
     (case rel_TypeInformation relation of
        None \<Rightarrow> Inl (Panic nil_pointer_dereference)
      | Some ti \<Rightarrow>
          (case ms_getMetadataComments (rel_Metadata relation) of
             Inl e \<Rightarrow> Inl e
           | Inr comment \<Rightarrow>
               Inr \<lparr>Relation_Name = rel_Name relation,
                    Relation_Types = map mapRelationType (AllowedDirectRelations ti),
                    Relation_Comment = comment\<rparr>))"

definition ms_mapPermission :: "core_Relation \<Rightarrow> failure + ms_Permission" where
  "ms_mapPermission relation =
     (case ms_getMetadataComments (rel_Metadata relation) of
        Inl e \<Rightarrow> Inl e
      | Inr comment \<Rightarrow>
          Inr \<lparr>ms_Permission_Name = rel_Name relation,
               ms_Permission_Comment = comment\<rparr>)"

fun ms_mapDefinition_range ::
  "(core_Relation \<Rightarrow> RelationKind) \<Rightarrow> core_Relation list \<Rightarrow> Relation list \<Rightarrow> ms_Permission list \<Rightarrow>
   failure + (Relation list \<times> ms_Permission list)" where
  "ms_mapDefinition_range GetRelationKind [] relations permissions = Inr (relations, permissions)"
| "ms_mapDefinition_range GetRelationKind (r # rs) relations permissions =
     (if GetRelationKind r = RelationMetadata_PERMISSION then
        (case ms_mapPermission r of
           Inl e \<Rightarrow> Inl e
         | Inr p \<Rightarrow> ms_mapDefinition_range GetRelationKind rs relations (permissions @ [p]))
      else if GetRelationKind r = RelationMetadata_RELATION then
        (case ms_mapRelation r of
           Inl e \<Rightarrow> Inl e
         | Inr p \<Rightarrow> ms_mapDefinition_range GetRelationKind rs (relations @ [p]) permissions)
      else Inl (Error (Errorf_unexpected_relation (rel_Name r))))"

definition ms_mapDefinition ::
  "(core_Relation \<Rightarrow> RelationKind) \<Rightarrow> NamespaceDefinition \<Rightarrow> failure + ms_Definition" where
  "ms_mapDefinition GetRelationKind def =
     (case ms_mapDefinition_range GetRelationKind (def_Relation def) [] [] of
        Inl e \<Rightarrow> Inl e
      | Inr (relations, permissions) \<Rightarrow>
          (let splits = SplitN (def_Name def) ''/'' 2;
               name = (if length splits = 2 then splits ! 1 else splits ! 0);
               ns = (if length splits = 2 then splits ! 0 else [])
           in case ms_getMetadataComments (def_Metadata def) of
                Inl e \<Rightarrow> Inl e
              | Inr comment \<Rightarrow>
                  Inr \<lparr>ms_Definition_Name = name,
                       ms_Definition_Namespace = ns,
                       ms_Definition_Relations = relations,
                       ms_Definition_Permissions = permissions,
                       ms_Definition_Comment = comment\<rparr>))"

text \<open>The loop stores each entry of \<^verbatim>\<open>ParameterTypes\<close> in the map \<open>parameters\<close>.\<close>

definition ms_mapCaveat :: "CaveatDefinition \<Rightarrow> failure + ms_Caveat" where
  "ms_mapCaveat caveat =
     (let parameters =
            fold (\<lambda>(key, value) parameters. parameters(key \<mapsto> TypeName value))
              (ParameterTypes caveat) Map.empty
      in case ms_getMetadataComments (cav_Metadata caveat) of
           Inl e \<Rightarrow> Inl e
         | Inr comment \<Rightarrow>
             Inr \<lparr>ms_Caveat_Name = cav_Name caveat,
                  ms_Caveat_Parameters = parameters,
                  ms_Caveat_Comment = comment\<rparr>)"

section \<open>The shape of rewrite rules and of rewrite trees\<close>

text \<open>
  What the specification says of the rewrite-tree mapper, in its own words, to compare
  the mapper with. A rewrite rule is well-formed when one of its three operations is
  set and each child has one of its three shapes: a computed userset, a tuple-to-userset
  with its tupleset and its computed userset, or a well-formed nested rule.
\<close>

fun operator_name :: "UsersetRewrite \<Rightarrow> string" where
  "operator_name (UsersetRewrite_Union cs) = ''union''"
| "operator_name (UsersetRewrite_Intersection cs) = ''intersection''"
| "operator_name (UsersetRewrite_Exclusion cs) = ''exclusion''"
| "operator_name UsersetRewrite_none = []"

fun children_of :: "UsersetRewrite \<Rightarrow> SetOperation_Child list" where
  "children_of (UsersetRewrite_Union cs) = cs"
| "children_of (UsersetRewrite_Intersection cs) = cs"
| "children_of (UsersetRewrite_Exclusion cs) = cs"
| "children_of UsersetRewrite_none = []"

fun wellformed_rewrite :: "UsersetRewrite \<Rightarrow> bool"
  and wellformed_child :: "SetOperation_Child \<Rightarrow> bool" where
  "wellformed_rewrite (UsersetRewrite_Union cs) = list_all wellformed_child cs"
| "wellformed_rewrite (UsersetRewrite_Intersection cs) = list_all wellformed_child cs"
| "wellformed_rewrite (UsersetRewrite_Exclusion cs) = list_all wellformed_child cs"
| "wellformed_rewrite UsersetRewrite_none = False"
| "wellformed_child (Child_ComputedUserset c) = True"
| "wellformed_child (Child_TupleToUserset t) = (Tupleset t \<noteq> None \<and> ComputedUserset t \<noteq> None)"
| "wellformed_child (Child_UsersetRewrite rw) = wellformed_rewrite rw"
| "wellformed_child Child_other = False"

text \<open>
  The tree that mirrors a rule: an operator node with the name of the operation and one
  child for each child of the rule, in their order (\<open>map\<close>); a leaf with \<^verbatim>\<open>relation\<close>
  for a computed userset; a leaf with \<^verbatim>\<open>relation\<close> and \<^verbatim>\<open>permission\<close> for a
  tuple-to-userset; the mirror of the nested rule for a nested rule. It is \<open>None\<close> where
  the rule is not well-formed.
\<close>

fun mirror :: "UsersetRewrite \<Rightarrow> UserSet option"
  and mirror_child :: "SetOperation_Child \<Rightarrow> UserSet option" where
  "mirror (UsersetRewrite_Union cs) = Some (UserSet ''union'' [] [] (map mirror_child cs))"
| "mirror (UsersetRewrite_Intersection cs) =
     Some (UserSet ''intersection'' [] [] (map mirror_child cs))"
| "mirror (UsersetRewrite_Exclusion cs) = Some (UserSet ''exclusion'' [] [] (map mirror_child cs))"
| "mirror UsersetRewrite_none = None"
| "mirror_child (Child_ComputedUserset c) = Some (UserSet [] (ComputedUserset_Relation c) [] [])"
| "mirror_child (Child_TupleToUserset t) =
     (case Tupleset t of
        None \<Rightarrow> None
      | Some ts \<Rightarrow>
          (case ComputedUserset t of
             None \<Rightarrow> None
           | Some cu \<Rightarrow>
               Some (UserSet [] (Tupleset_Relation ts) (ComputedUserset_Relation cu) [])))"
| "mirror_child (Child_UsersetRewrite rw) = mirror rw"
| "mirror_child Child_other = None"

text \<open>The nesting depth of a rule and of a tree; a leaf has depth 1.\<close>

fun depth_rewrite :: "UsersetRewrite \<Rightarrow> nat"
  and depth_children :: "SetOperation_Child list \<Rightarrow> nat" where
  "depth_rewrite (UsersetRewrite_Union cs) = Suc (depth_children cs)"
| "depth_rewrite (UsersetRewrite_Intersection cs) = Suc (depth_children cs)"
| "depth_rewrite (UsersetRewrite_Exclusion cs) = Suc (depth_children cs)"
| "depth_rewrite UsersetRewrite_none = 0"
| "depth_children [] = 0"
| "depth_children (Child_UsersetRewrite rw # cs) = max (depth_rewrite rw) (depth_children cs)"
| "depth_children (Child_other # cs) = depth_children cs"
| "depth_children (c # cs) = max 1 (depth_children cs)"

fun depth_UserSet :: "UserSet \<Rightarrow> nat"
  and depth_UserSets :: "UserSet option list \<Rightarrow> nat" where
  "depth_UserSet (UserSet operation relation permission sets) = Suc (depth_UserSets sets)"
| "depth_UserSets [] = 0"
| "depth_UserSets (None # sets) = depth_UserSets sets"
| "depth_UserSets (Some u # sets) = max (depth_UserSet u) (depth_UserSets sets)"

text \<open>The nodes of a rewrite tree, the root first; a nil child is no node.\<close>

fun nodes :: "UserSet \<Rightarrow> UserSet list"
  and nodes_list :: "UserSet option list \<Rightarrow> UserSet list" where
  "nodes (UserSet operation relation permission sets) =
     UserSet operation relation permission sets # nodes_list sets"
| "nodes_list [] = []"
| "nodes_list (None # sets) = nodes_list sets"
| "nodes_list (Some u # sets) = nodes u @ nodes_list sets"

text \<open>
  The two shapes of a node. As the claim words them: an operator node has \<^verbatim>\<open>operation\<close>
  and \<^verbatim>\<open>children\<close> populated, \<^verbatim>\<open>relation\<close> and \<^verbatim>\<open>permission\<close> empty; a leaf has
  \<^verbatim>\<open>relation\<close> populated, \<^verbatim>\<open>operation\<close> and \<^verbatim>\<open>children\<close> empty.
\<close>

definition operator_node_populated :: "UserSet \<Rightarrow> bool" where
  "operator_node_populated u =
     (Operation u \<noteq> [] \<and> Children u \<noteq> [] \<and> Relation u = [] \<and> Permission u = [])"

definition leaf_node_populated :: "UserSet \<Rightarrow> bool" where
  "leaf_node_populated u = (Relation u \<noteq> [] \<and> Operation u = [] \<and> Children u = [])"

text \<open>
  As the mapper builds them: an operator node has one of the three names as its
  \<^verbatim>\<open>operation\<close> and no \<^verbatim>\<open>relation\<close> or \<^verbatim>\<open>permission\<close>; its children are those the
  rule gives it, and there may be none. A leaf has no \<^verbatim>\<open>operation\<close> and no
  \<^verbatim>\<open>children\<close>; its names are those of its reference, and a reference whose names are
  empty strings gives the leaf with every field empty. Which children and which names a
  node has is stated against the rule (\<open>operations_of\<close>, \<open>leaf_names\<close>), not here.
\<close>

definition is_operator_node :: "UserSet \<Rightarrow> bool" where
  "is_operator_node u =
     ((Operation u = ''union'' \<or> Operation u = ''intersection'' \<or> Operation u = ''exclusion'')
      \<and> Relation u = [] \<and> Permission u = [])"

definition is_leaf_node :: "UserSet \<Rightarrow> bool" where
  "is_leaf_node u = (Operation u = [] \<and> Children u = [])"

section \<open>Input the mappers do not panic on\<close>

text \<open>
  A metadata bag is valid when each documentation comment in it has the two bytes the
  extractor cuts off. A rewrite is complete when each tuple-to-userset in it, at any
  depth, has its tupleset and its computed userset.
\<close>

definition valid_metadata :: "Metadata option \<Rightarrow> bool" where
  "valid_metadata metaData =
     list_all (\<lambda>d. TypeUrl d = DocCommentTypeUrl \<longrightarrow> 2 \<le> length (Value d))
       (GetMetadataMessage metaData)"

definition has_DocComment :: "Metadata option \<Rightarrow> bool" where
  "has_DocComment metaData =
     list_ex (\<lambda>d. TypeUrl d = DocCommentTypeUrl) (GetMetadataMessage metaData)"

fun complete_rewrite :: "UsersetRewrite option \<Rightarrow> bool"
  and complete_children :: "SetOperation_Child list \<Rightarrow> bool" where
  "complete_rewrite None = True"
| "complete_rewrite (Some (UsersetRewrite_Union cs)) = complete_children cs"
| "complete_rewrite (Some (UsersetRewrite_Intersection cs)) = complete_children cs"
| "complete_rewrite (Some (UsersetRewrite_Exclusion cs)) = complete_children cs"
| "complete_rewrite (Some UsersetRewrite_none) = True"
| "complete_children [] = True"
| "complete_children (Child_TupleToUserset t # cs) =
     (Tupleset t \<noteq> None \<and> ComputedUserset t \<noteq> None \<and> complete_children cs)"
| "complete_children (Child_UsersetRewrite rw # cs) =
     (complete_rewrite (Some rw) \<and> complete_children cs)"
| "complete_children (c # cs) = complete_children cs"

text \<open>
  A relation is valid for the kind the classification gives it: a storage relation has
  its type information, the rewrite of a permission is complete, and the metadata is
  valid. A definition is well-formed when the kind of each relation is one of the two
  and the relations and the metadata are valid.
\<close>

definition recognized :: "(core_Relation \<Rightarrow> RelationKind) \<Rightarrow> core_Relation \<Rightarrow> bool" where
  "recognized GetRelationKind r =
     (GetRelationKind r = RelationMetadata_PERMISSION \<or> GetRelationKind r = RelationMetadata_RELATION)"

definition valid_relation :: "(core_Relation \<Rightarrow> RelationKind) \<Rightarrow> core_Relation \<Rightarrow> bool" where
  "valid_relation GetRelationKind r =
     (valid_metadata (rel_Metadata r)
      \<and> (GetRelationKind r = RelationMetadata_RELATION \<longrightarrow> rel_TypeInformation r \<noteq> None)
      \<and> (GetRelationKind r = RelationMetadata_PERMISSION \<longrightarrow> complete_rewrite (rel_UsersetRewrite r)))"

definition wellformed_definition ::
  "(core_Relation \<Rightarrow> RelationKind) \<Rightarrow> NamespaceDefinition \<Rightarrow> bool" where
  "wellformed_definition GetRelationKind def =
     (list_all (\<lambda>r. recognized GetRelationKind r \<and> valid_relation GetRelationKind r)
        (def_Relation def)
      \<and> valid_metadata (def_Metadata def))"

section \<open>The split of a qualified name\<close>


section \<open>The rewrite tree of a rule, node by node\<close>

text \<open>
  Section 4.4 of the specification, for any rule: an operator node for the operation
  that is set, with one child for each child of the rule that has one of the three
  shapes, in their order; a child with none is dropped; a nested rule with no operation
  leaves the nil tree in its place.
\<close>

fun rewrite_tree :: "UsersetRewrite \<Rightarrow> UserSet option"
  and rewrite_children :: "SetOperation_Child list \<Rightarrow> UserSet option list" where
  "rewrite_tree (UsersetRewrite_Union cs) = Some (UserSet ''union'' [] [] (rewrite_children cs))"
| "rewrite_tree (UsersetRewrite_Intersection cs) =
     Some (UserSet ''intersection'' [] [] (rewrite_children cs))"
| "rewrite_tree (UsersetRewrite_Exclusion cs) =
     Some (UserSet ''exclusion'' [] [] (rewrite_children cs))"
| "rewrite_tree UsersetRewrite_none = None"
| "rewrite_children [] = []"
| "rewrite_children (Child_UsersetRewrite rw # cs) = rewrite_tree rw # rewrite_children cs"
| "rewrite_children (Child_other # cs) = rewrite_children cs"
| "rewrite_children (c # cs) = mirror_child c # rewrite_children cs"

text \<open>
  The references of a rule, at any depth and in their order, each with the two names it
  carries: the relation of a computed userset and no permission; the relation of the
  tupleset and the relation of the computed userset of a tuple-to-userset.
\<close>

fun leaf_names :: "UsersetRewrite \<Rightarrow> (string \<times> string) list"
  and leaf_names_children :: "SetOperation_Child list \<Rightarrow> (string \<times> string) list" where
  "leaf_names (UsersetRewrite_Union cs) = leaf_names_children cs"
| "leaf_names (UsersetRewrite_Intersection cs) = leaf_names_children cs"
| "leaf_names (UsersetRewrite_Exclusion cs) = leaf_names_children cs"
| "leaf_names UsersetRewrite_none = []"
| "leaf_names_children [] = []"
| "leaf_names_children (Child_ComputedUserset c # cs) =
     (ComputedUserset_Relation c, []) # leaf_names_children cs"
| "leaf_names_children (Child_TupleToUserset t # cs) =
     (case Tupleset t of
        None \<Rightarrow> []
      | Some ts \<Rightarrow>
          (case ComputedUserset t of
             None \<Rightarrow> []
           | Some cu \<Rightarrow> [(Tupleset_Relation ts, ComputedUserset_Relation cu)]))
     @ leaf_names_children cs"
| "leaf_names_children (Child_UsersetRewrite rw # cs) = leaf_names rw @ leaf_names_children cs"
| "leaf_names_children (Child_other # cs) = leaf_names_children cs"

text \<open>
  The operations of a rule, at any depth and in their order (a rule before the rules
  nested in it), each with its name and its list of children.
\<close>

fun operations_of :: "UsersetRewrite \<Rightarrow> (string \<times> SetOperation_Child list) list"
  and operations_of_children :: "SetOperation_Child list \<Rightarrow> (string \<times> SetOperation_Child list) list" where
  "operations_of (UsersetRewrite_Union cs) = (''union'', cs) # operations_of_children cs"
| "operations_of (UsersetRewrite_Intersection cs) = (''intersection'', cs) # operations_of_children cs"
| "operations_of (UsersetRewrite_Exclusion cs) = (''exclusion'', cs) # operations_of_children cs"
| "operations_of UsersetRewrite_none = []"
| "operations_of_children [] = []"
| "operations_of_children (Child_UsersetRewrite rw # cs) =
     operations_of rw @ operations_of_children cs"
| "operations_of_children (c # cs) = operations_of_children cs"

text \<open>
  A rule is populated when each operation in it, at any depth, has a child with one of
  the three shapes, and each name a reference carries is not empty.
\<close>

fun populated_rewrite :: "UsersetRewrite \<Rightarrow> bool"
  and populated_children :: "SetOperation_Child list \<Rightarrow> bool" where
  "populated_rewrite (UsersetRewrite_Union cs) =
     (list_ex (\<lambda>c. c \<noteq> Child_other) cs \<and> populated_children cs)"
| "populated_rewrite (UsersetRewrite_Intersection cs) =
     (list_ex (\<lambda>c. c \<noteq> Child_other) cs \<and> populated_children cs)"
| "populated_rewrite (UsersetRewrite_Exclusion cs) =
     (list_ex (\<lambda>c. c \<noteq> Child_other) cs \<and> populated_children cs)"
| "populated_rewrite UsersetRewrite_none = True"
| "populated_children [] = True"
| "populated_children (Child_ComputedUserset c # cs) =
     (ComputedUserset_Relation c \<noteq> [] \<and> populated_children cs)"
| "populated_children (Child_TupleToUserset t # cs) =
     ((case Tupleset t of None \<Rightarrow> True | Some ts \<Rightarrow> Tupleset_Relation ts \<noteq> [])
      \<and> (case ComputedUserset t of None \<Rightarrow> True | Some cu \<Rightarrow> ComputedUserset_Relation cu \<noteq> [])
      \<and> populated_children cs)"
| "populated_children (Child_UsersetRewrite rw # cs) =
     (populated_rewrite rw \<and> populated_children cs)"
| "populated_children (Child_other # cs) = populated_children cs"

section \<open>Verified properties\<close>

subsection \<open>The rewrite-tree mapper\<close>

lemma mapUserSetChild_append:
  "mapUserSetChild (xs @ ys) =
     (case mapUserSetChild xs of
        Inl e \<Rightarrow> Inl e
      | Inr a \<Rightarrow> (case mapUserSetChild ys of Inl e \<Rightarrow> Inl e | Inr b \<Rightarrow> Inr (a @ b)))"
proof (induction xs)
  case Nil
  show ?case by (simp split: sum.splits)
next
  case (Cons c cs)
  show ?case
  proof (cases c)
    case (Child_ComputedUserset x)
    with Cons show ?thesis by (simp split: sum.splits)
  next
    case (Child_TupleToUserset t)
    with Cons show ?thesis by (simp split: sum.splits option.splits)
  next
    case (Child_UsersetRewrite rw)
    with Cons show ?thesis by (simp split: sum.splits)
  next
    case Child_other
    with Cons show ?thesis by simp
  qed
qed

lemma mapUserSetChild_drop_other:
  "mapUserSetChild (before @ Child_other # after) = mapUserSetChild (before @ after)"
proof -
  have "mapUserSetChild (Child_other # after) = mapUserSetChild after" by simp
  then show ?thesis by (simp only: mapUserSetChild_append)
qed

lemma mapUserSet_complete:
  "(complete_rewrite rwo \<longrightarrow> (\<exists>u. mapUserSet rwo = Inr u))"
  "(complete_children cs \<longrightarrow> (\<exists>sets. mapUserSetChild cs = Inr sets))"
  by (induction rwo and cs rule: mapUserSet_mapUserSetChild.induct) fastforce+

lemma mapUserSet_rewrite_tree:
  "(\<forall>uo. mapUserSet rwo = Inr uo \<longrightarrow> uo = (case rwo of None \<Rightarrow> None | Some rw \<Rightarrow> rewrite_tree rw))"
  "(\<forall>sets. mapUserSetChild cs = Inr sets \<longrightarrow> sets = rewrite_children cs)"
  by (induction rwo and cs rule: mapUserSet_mapUserSetChild.induct)
     (auto split: sum.splits option.splits)

lemma mapUserSet_wellformed:
  "(\<forall>rw. rwo = Some rw \<longrightarrow> wellformed_rewrite rw \<longrightarrow> mapUserSet rwo = Inr (mirror rw))"
  "(list_all wellformed_child cs \<longrightarrow> mapUserSetChild cs = Inr (map mirror_child cs))"
  by (induction rwo and cs rule: mapUserSet_mapUserSetChild.induct) auto

lemma depth_mirror:
  "(wellformed_rewrite rw \<longrightarrow> (\<exists>u. mirror rw = Some u \<and> depth_UserSet u = depth_rewrite rw))"
  "(list_all wellformed_child cs \<longrightarrow> depth_UserSets (map mirror_child cs) = depth_children cs)"
  by (induction rw and cs rule: depth_rewrite_depth_children.induct) auto

lemma mirror_wellformed:
  "(wellformed_rewrite rw \<longrightarrow> mirror rw \<noteq> None)"
  "(wellformed_child c \<longrightarrow> mirror_child c \<noteq> None)"
  by (induction rw and c rule: wellformed_rewrite_wellformed_child.induct) auto

text \<open>
  Claim C1. For a well-formed rewrite rule the mapper returns the tree that mirrors
  it: the operation of the root is the name of the rule's operation, the children are
  the images of the rule's children, one for each and in their order (none is nil, none
  is left out, merged or moved), a nested rule is mapped by the same function to its own
  subtree, and the tree is as deep as the rule.
\<close>

theorem mapUserSet_mirrors:
  assumes "wellformed_rewrite rw"
  shows "\<exists>u. mapUserSet (Some rw) = Inr (Some u)
           \<and> mirror rw = Some u
           \<and> Operation u = operator_name rw
           \<and> Children u = map mirror_child (children_of rw)
           \<and> list_all (\<lambda>c. c \<noteq> None) (Children u)
           \<and> depth_UserSet u = depth_rewrite rw"
proof -
  from assms have m: "mapUserSet (Some rw) = Inr (mirror rw)"
    using mapUserSet_wellformed(1) by simp
  from assms obtain u where u: "mirror rw = Some u" "depth_UserSet u = depth_rewrite rw"
    using depth_mirror(1) by blast
  have shape: "Operation u = operator_name rw \<and> Children u = map mirror_child (children_of rw)"
    using u(1) by (cases rw) auto
  have "list_all wellformed_child (children_of rw)"
    using assms by (cases rw) auto
  then have "list_all (\<lambda>c. c \<noteq> None) (map mirror_child (children_of rw))"
    using mirror_wellformed(2) by (simp add: list_all_iff)
  with m u shape show ?thesis by simp
qed

text \<open>
  An exclusion with the children \<open>[A, B, C]\<close>: a computed userset, a tuple-to-userset
  and a union of a union; the inner union has the same child twice.
\<close>

theorem mapUserSet_mirrors_witness:
  "wellformed_rewrite
     (UsersetRewrite_Exclusion
        [Child_ComputedUserset \<lparr>ComputedUserset_Relation = ''a''\<rparr>,
         Child_TupleToUserset
           \<lparr>Tupleset = Some \<lparr>Tupleset_Relation = ''b''\<rparr>,
            ComputedUserset = Some \<lparr>ComputedUserset_Relation = ''p''\<rparr>\<rparr>,
         Child_UsersetRewrite
           (UsersetRewrite_Union
              [Child_UsersetRewrite
                 (UsersetRewrite_Union
                    [Child_ComputedUserset \<lparr>ComputedUserset_Relation = ''c''\<rparr>,
                     Child_ComputedUserset \<lparr>ComputedUserset_Relation = ''c''\<rparr>]),
               Child_ComputedUserset \<lparr>ComputedUserset_Relation = ''d''\<rparr>])])
   \<and> mapUserSet
       (Some (UsersetRewrite_Exclusion
        [Child_ComputedUserset \<lparr>ComputedUserset_Relation = ''a''\<rparr>,
         Child_TupleToUserset
           \<lparr>Tupleset = Some \<lparr>Tupleset_Relation = ''b''\<rparr>,
            ComputedUserset = Some \<lparr>ComputedUserset_Relation = ''p''\<rparr>\<rparr>,
         Child_UsersetRewrite
           (UsersetRewrite_Union
              [Child_UsersetRewrite
                 (UsersetRewrite_Union
                    [Child_ComputedUserset \<lparr>ComputedUserset_Relation = ''c''\<rparr>,
                     Child_ComputedUserset \<lparr>ComputedUserset_Relation = ''c''\<rparr>]),
               Child_ComputedUserset \<lparr>ComputedUserset_Relation = ''d''\<rparr>])])) =
     Inr (Some (UserSet ''exclusion'' [] []
        [Some (UserSet [] ''a'' [] []),
         Some (UserSet [] ''b'' ''p'' []),
         Some (UserSet ''union'' [] []
           [Some (UserSet ''union'' [] []
              [Some (UserSet [] ''c'' [] []), Some (UserSet [] ''c'' [] [])]),
            Some (UserSet [] ''d'' [] [])])]))"
  using mapUserSet_mirrors [of "UsersetRewrite_Exclusion
        [Child_ComputedUserset \<lparr>ComputedUserset_Relation = ''a''\<rparr>,
         Child_TupleToUserset
           \<lparr>Tupleset = Some \<lparr>Tupleset_Relation = ''b''\<rparr>,
            ComputedUserset = Some \<lparr>ComputedUserset_Relation = ''p''\<rparr>\<rparr>,
         Child_UsersetRewrite
           (UsersetRewrite_Union
              [Child_UsersetRewrite
                 (UsersetRewrite_Union
                    [Child_ComputedUserset \<lparr>ComputedUserset_Relation = ''c''\<rparr>,
                     Child_ComputedUserset \<lparr>ComputedUserset_Relation = ''c''\<rparr>]),
               Child_ComputedUserset \<lparr>ComputedUserset_Relation = ''d''\<rparr>])]"]
  by simp

subsection \<open>Malformed rewrite nodes\<close>

lemma complete_children_append:
  "complete_children (xs @ ys) = (complete_children xs \<and> complete_children ys)"
proof (induction xs)
  case Nil
  show ?case by simp
next
  case (Cons c cs)
  then show ?case by (cases c) simp_all
qed

lemma mapUserSetChild_wellformed_append:
  assumes "list_all wellformed_child before" and "list_all wellformed_child after"
  shows "mapUserSetChild (before @ c # after) =
     (case mapUserSetChild [c] of
        Inl e \<Rightarrow> Inl e
      | Inr m \<Rightarrow> Inr (map mirror_child before @ m @ map mirror_child after))"
proof -
  from assms have b: "mapUserSetChild before = Inr (map mirror_child before)"
    and a: "mapUserSetChild after = Inr (map mirror_child after)"
    using mapUserSet_wellformed(2) by blast+
  have "mapUserSetChild (c # after) =
      (case mapUserSetChild [c] of Inl e \<Rightarrow> Inl e | Inr m \<Rightarrow> Inr (m @ map mirror_child after))"
    using mapUserSetChild_append [of "[c]" after] a by (simp split: sum.splits)
  then show ?thesis
    using mapUserSetChild_append [of before "c # after"] b by (simp split: sum.splits)
qed

text \<open>
  Claim C9. A malformed rewrite node raises no error. A rewrite none of whose three
  operations is set (and the nil rewrite) maps to the nil \<^verbatim>\<open>UserSet\<close>, with no failure;
  as the child of an operation it leaves that nil in the parent's children. A child none
  of whose three shapes is set is left out of the parent's children, with no failure:
  alone it gives the empty list of children, and each of the three operations over it a
  node without children; between well-formed children it gives exactly their images, in
  their order; in any list, the result is the result without that child. For every rule
  that is complete (no tuple-to-userset lacks a part), wherever its malformed nodes are
  and at any depth, the mapper returns the rewrite tree of the specification, in which
  those nodes are dropped or nil.
\<close>

theorem malformed_rewrite_node_silent:
  "mapUserSet (Some UsersetRewrite_none) = Inr None
   \<and> mapUserSet None = Inr None
   \<and> mapUserSetChild (Child_UsersetRewrite UsersetRewrite_none # children) =
       (case mapUserSetChild children of Inl e \<Rightarrow> Inl e | Inr sets \<Rightarrow> Inr (None # sets))
   \<and> mapUserSetChild (before @ Child_other # after) = mapUserSetChild (before @ after)
   \<and> mapUserSet (Some (UsersetRewrite_Union (before @ Child_other # after))) =
       mapUserSet (Some (UsersetRewrite_Union (before @ after)))
   \<and> mapUserSet (Some (UsersetRewrite_Intersection (before @ Child_other # after))) =
       mapUserSet (Some (UsersetRewrite_Intersection (before @ after)))
   \<and> mapUserSet (Some (UsersetRewrite_Exclusion (before @ Child_other # after))) =
       mapUserSet (Some (UsersetRewrite_Exclusion (before @ after)))
   \<and> mapUserSetChild [Child_other] = Inr []
   \<and> mapUserSetChild [Child_UsersetRewrite UsersetRewrite_none] = Inr [None]
   \<and> mapUserSet (Some (UsersetRewrite_Union [Child_other])) = Inr (Some (UserSet ''union'' [] [] []))
   \<and> mapUserSet (Some (UsersetRewrite_Intersection [Child_other])) =
       Inr (Some (UserSet ''intersection'' [] [] []))
   \<and> mapUserSet (Some (UsersetRewrite_Exclusion [Child_other])) =
       Inr (Some (UserSet ''exclusion'' [] [] []))
   \<and> (list_all wellformed_child before \<and> list_all wellformed_child after \<longrightarrow>
        mapUserSetChild (before @ Child_other # after) =
          Inr (map mirror_child before @ map mirror_child after)
        \<and> mapUserSetChild (before @ Child_UsersetRewrite UsersetRewrite_none # after) =
          Inr (map mirror_child before @ None # map mirror_child after)
        \<and> mapUserSet (Some (UsersetRewrite_Union (before @ Child_other # after))) =
          Inr (Some (UserSet ''union'' [] [] (map mirror_child before @ map mirror_child after)))
        \<and> mapUserSet (Some (UsersetRewrite_Intersection (before @ Child_other # after))) =
          Inr (Some (UserSet ''intersection'' [] [] (map mirror_child before @ map mirror_child after)))
        \<and> mapUserSet (Some (UsersetRewrite_Exclusion (before @ Child_other # after))) =
          Inr (Some (UserSet ''exclusion'' [] [] (map mirror_child before @ map mirror_child after))))
   \<and> (complete_children (before @ after) \<longrightarrow>
        (\<exists>sets. mapUserSetChild (before @ after) = Inr sets
           \<and> mapUserSetChild (before @ Child_other # after) = Inr sets
           \<and> sets = rewrite_children (before @ Child_other # after)))
   \<and> (complete_rewrite rwo \<longrightarrow>
        mapUserSet rwo = Inr (case rwo of None \<Rightarrow> None | Some rw \<Rightarrow> rewrite_tree rw))"
proof -
  have w: "list_all wellformed_child before \<and> list_all wellformed_child after \<longrightarrow>
        mapUserSetChild (before @ Child_other # after) =
          Inr (map mirror_child before @ map mirror_child after)
        \<and> mapUserSetChild (before @ Child_UsersetRewrite UsersetRewrite_none # after) =
          Inr (map mirror_child before @ None # map mirror_child after)"
    using mapUserSetChild_wellformed_append [of before after Child_other]
      mapUserSetChild_wellformed_append [of before after "Child_UsersetRewrite UsersetRewrite_none"]
    by simp
  have c: "complete_children (before @ after) \<longrightarrow>
        (\<exists>sets. mapUserSetChild (before @ after) = Inr sets
           \<and> mapUserSetChild (before @ Child_other # after) = Inr sets
           \<and> sets = rewrite_children (before @ Child_other # after))"
  proof
    assume "complete_children (before @ after)"
    then obtain sets where s: "mapUserSetChild (before @ after) = Inr sets"
      using mapUserSet_complete(2) by blast
    then have d: "mapUserSetChild (before @ Child_other # after) = Inr sets"
      by (simp add: mapUserSetChild_drop_other)
    with mapUserSet_rewrite_tree(2) have "sets = rewrite_children (before @ Child_other # after)"
      by blast
    with s d show "\<exists>sets. mapUserSetChild (before @ after) = Inr sets
           \<and> mapUserSetChild (before @ Child_other # after) = Inr sets
           \<and> sets = rewrite_children (before @ Child_other # after)"
      by blast
  qed
  have r: "complete_rewrite rwo \<longrightarrow>
        mapUserSet rwo = Inr (case rwo of None \<Rightarrow> None | Some rw \<Rightarrow> rewrite_tree rw)"
    using mapUserSet_complete(1) [of rwo] mapUserSet_rewrite_tree(1) [of rwo] by auto
  from w c r show ?thesis
    by (simp add: mapUserSetChild_drop_other)
qed

theorem malformed_rewrite_node_silent_witness:
  "list_all wellformed_child [Child_ComputedUserset \<lparr>ComputedUserset_Relation = ''owner''\<rparr>]
   \<and> list_all wellformed_child
       [Child_TupleToUserset
            \<lparr>Tupleset = Some \<lparr>Tupleset_Relation = ''parent''\<rparr>,
             ComputedUserset = Some \<lparr>ComputedUserset_Relation = ''view''\<rparr>\<rparr>]
   \<and> mapUserSetChild
       ([Child_ComputedUserset \<lparr>ComputedUserset_Relation = ''owner''\<rparr>] @ Child_other #
        [Child_TupleToUserset
            \<lparr>Tupleset = Some \<lparr>Tupleset_Relation = ''parent''\<rparr>,
             ComputedUserset = Some \<lparr>ComputedUserset_Relation = ''view''\<rparr>\<rparr>]) =
       Inr [Some (UserSet [] ''owner'' [] []), Some (UserSet [] ''parent'' ''view'' [])]
   \<and> mapUserSet
       (Some (UsersetRewrite_Exclusion
          ([Child_ComputedUserset \<lparr>ComputedUserset_Relation = ''owner''\<rparr>] @ Child_other #
           [Child_TupleToUserset
            \<lparr>Tupleset = Some \<lparr>Tupleset_Relation = ''parent''\<rparr>,
             ComputedUserset = Some \<lparr>ComputedUserset_Relation = ''view''\<rparr>\<rparr>]))) =
       Inr (Some (UserSet ''exclusion'' [] []
          [Some (UserSet [] ''owner'' [] []), Some (UserSet [] ''parent'' ''view'' [])]))
   \<and> complete_rewrite
       (Some (UsersetRewrite_Exclusion
          [Child_ComputedUserset \<lparr>ComputedUserset_Relation = ''owner''\<rparr>,
           Child_other,
           Child_UsersetRewrite (UsersetRewrite_Union [Child_other]),
           Child_UsersetRewrite UsersetRewrite_none]))
   \<and> mapUserSet
       (Some (UsersetRewrite_Exclusion
          [Child_ComputedUserset \<lparr>ComputedUserset_Relation = ''owner''\<rparr>,
           Child_other,
           Child_UsersetRewrite (UsersetRewrite_Union [Child_other]),
           Child_UsersetRewrite UsersetRewrite_none])) =
       Inr (Some (UserSet ''exclusion'' [] []
          [Some (UserSet [] ''owner'' [] []), Some (UserSet ''union'' [] [] []), None]))"
  (is "list_all wellformed_child ?before \<and> list_all wellformed_child ?after \<and> _ \<and> _
       \<and> complete_rewrite ?rwo \<and> _")
proof -
  have w: "list_all wellformed_child ?before \<and> list_all wellformed_child ?after" by simp
  have c: "complete_rewrite ?rwo" by simp
  from malformed_rewrite_node_silent [where before = ?before and after = ?after and rwo = ?rwo] w c
  show ?thesis by simp
qed

subsection \<open>The type-reference mapper\<close>

text \<open>
  Claim C8. \<open>mapRelationType\<close> returns a \<^verbatim>\<open>RelationType\<close> for every allowed relation (it
  has no failure among its results). Its \<^verbatim>\<open>relation\<close> is \<^verbatim>\<open>*\<close> for the wildcard, the
  empty string for the sub-relation \<^verbatim>\<open>...\<close>, and the named sub-relation otherwise; its
  \<^verbatim>\<open>caveat\<close> is the name of the required caveat, the empty string when there is none;
  its \<^verbatim>\<open>type\<close> is the namespace of the reference.
\<close>

theorem mapRelationType_fields:
  "RelationType_Relation
     (mapRelationType (t\<lparr>RelationOrWildcard := Some AllowedRelation_PublicWildcard\<rparr>)) = ''*''
   \<and> RelationType_Relation
       (mapRelationType (t\<lparr>RelationOrWildcard := Some (AllowedRelation_Relation ''...'')\<rparr>)) = []
   \<and> RelationType_Relation
       (mapRelationType (t\<lparr>RelationOrWildcard := Some (AllowedRelation_Relation r)\<rparr>)) =
       (if r = ''...'' then [] else r)
   \<and> RelationType_Caveat (mapRelationType (t\<lparr>RequiredCaveat := Some c\<rparr>)) = CaveatName c
   \<and> RelationType_Caveat (mapRelationType (t\<lparr>RequiredCaveat := None\<rparr>)) = []
   \<and> RelationType_Type (mapRelationType t) = ar_Namespace t"
  by (simp add: mapRelationType_def)

subsection \<open>The two shapes of a node\<close>

lemma mapUserSet_nodes:
  "(\<forall>u. mapUserSet rwo = Inr (Some u) \<longrightarrow>
      list_all (\<lambda>n. is_operator_node n \<noteq> is_leaf_node n) (nodes u))"
  "(\<forall>sets. mapUserSetChild cs = Inr sets \<longrightarrow>
      list_all (\<lambda>n. is_operator_node n \<noteq> is_leaf_node n) (nodes_list sets))"
proof (induction rwo and cs rule: mapUserSet_mapUserSetChild.induct)
  case (9 set' children)
  show ?case
  proof (intro allI impI)
    fix sets
    assume a: "mapUserSetChild (Child_UsersetRewrite set' # children) = Inr sets"
    then obtain u rest where u: "mapUserSet (Some set') = Inr u"
      and r: "mapUserSetChild children = Inr rest" and s: "sets = u # rest"
      by (auto split: sum.splits)
    from 9(2) [OF u] r
    have 1: "list_all (\<lambda>n. is_operator_node n \<noteq> is_leaf_node n) (nodes_list rest)" by simp
    show "list_all (\<lambda>n. is_operator_node n \<noteq> is_leaf_node n) (nodes_list sets)"
    proof (cases u)
      case None
      with 1 s show ?thesis by simp
    next
      case (Some v)
      with 9(1) u have "list_all (\<lambda>n. is_operator_node n \<noteq> is_leaf_node n) (nodes v)" by simp
      with 1 s Some show ?thesis by simp
    qed
  qed
qed (auto simp: is_operator_node_def is_leaf_node_def split: sum.splits option.splits)

lemma mapUserSet_leaf_names:
  "(\<forall>uo. mapUserSet rwo = Inr uo \<longrightarrow>
      map (\<lambda>n. (Relation n, Permission n))
        (filter is_leaf_node (case uo of None \<Rightarrow> [] | Some u \<Rightarrow> nodes u)) =
      (case rwo of None \<Rightarrow> [] | Some rw \<Rightarrow> leaf_names rw))"
  "(\<forall>sets. mapUserSetChild cs = Inr sets \<longrightarrow>
      map (\<lambda>n. (Relation n, Permission n)) (filter is_leaf_node (nodes_list sets)) =
      leaf_names_children cs)"
proof (induction rwo and cs rule: mapUserSet_mapUserSetChild.induct)
  case (9 set' children)
  show ?case
  proof (intro allI impI)
    fix sets
    assume "mapUserSetChild (Child_UsersetRewrite set' # children) = Inr sets"
    then obtain u rest where u: "mapUserSet (Some set') = Inr u"
      and r: "mapUserSetChild children = Inr rest" and s: "sets = u # rest"
      by (auto split: sum.splits)
    from 9(1) u have 1: "map (\<lambda>n. (Relation n, Permission n))
        (filter is_leaf_node (case u of None \<Rightarrow> [] | Some u \<Rightarrow> nodes u)) = leaf_names set'"
      by simp
    from 9(2) [OF u] r have 2: "map (\<lambda>n. (Relation n, Permission n))
        (filter is_leaf_node (nodes_list rest)) = leaf_names_children children"
      by simp
    from 1 2 s show "map (\<lambda>n. (Relation n, Permission n)) (filter is_leaf_node (nodes_list sets)) =
      leaf_names_children (Child_UsersetRewrite set' # children)"
      by (cases u) simp_all
  qed
qed (auto simp: is_leaf_node_def split: sum.splits option.splits)

lemma mapUserSet_operations:
  "(\<forall>uo. mapUserSet rwo = Inr uo \<longrightarrow>
      map (\<lambda>n. (Operation n, Inr (Children n)))
        (filter is_operator_node (case uo of None \<Rightarrow> [] | Some u \<Rightarrow> nodes u)) =
      map (\<lambda>(name, cs). (name, mapUserSetChild cs))
        (case rwo of None \<Rightarrow> [] | Some rw \<Rightarrow> operations_of rw))"
  "(\<forall>sets. mapUserSetChild cs = Inr sets \<longrightarrow>
      map (\<lambda>n. (Operation n, Inr (Children n))) (filter is_operator_node (nodes_list sets)) =
      map (\<lambda>(name, cs). (name, mapUserSetChild cs)) (operations_of_children cs))"
proof (induction rwo and cs rule: mapUserSet_mapUserSetChild.induct)
  case (9 set' children)
  show ?case
  proof (intro allI impI)
    fix sets
    assume "mapUserSetChild (Child_UsersetRewrite set' # children) = Inr sets"
    then obtain u rest where u: "mapUserSet (Some set') = Inr u"
      and r: "mapUserSetChild children = Inr rest" and s: "sets = u # rest"
      by (auto split: sum.splits)
    from 9(1) u have 1: "map (\<lambda>n. (Operation n, Inr (Children n)))
        (filter is_operator_node (case u of None \<Rightarrow> [] | Some u \<Rightarrow> nodes u)) =
        map (\<lambda>(name, cs). (name, mapUserSetChild cs)) (operations_of set')"
      by simp
    from 9(2) [OF u] r have 2: "map (\<lambda>n. (Operation n, Inr (Children n)))
        (filter is_operator_node (nodes_list rest)) =
        map (\<lambda>(name, cs). (name, mapUserSetChild cs)) (operations_of_children children)"
      by simp
    from 1 2 s show "map (\<lambda>n. (Operation n, Inr (Children n))) (filter is_operator_node (nodes_list sets)) =
      map (\<lambda>(name, cs). (name, mapUserSetChild cs))
        (operations_of_children (Child_UsersetRewrite set' # children))"
      by (cases u) simp_all
  qed
qed (auto simp: is_operator_node_def split: sum.splits option.splits)

lemma mapUserSetChild_nonempty:
  "mapUserSetChild cs = Inr sets \<Longrightarrow> list_ex (\<lambda>c. c \<noteq> Child_other) cs \<Longrightarrow> sets \<noteq> []"
proof (induction cs arbitrary: sets)
  case Nil
  then show ?case by simp
next
  case (Cons c cs)
  then show ?case by (cases c) (auto split: sum.splits option.splits)
qed

lemma mapUserSet_populated:
  "(\<forall>uo. mapUserSet rwo = Inr uo \<longrightarrow>
      (case rwo of None \<Rightarrow> True | Some rw \<Rightarrow> populated_rewrite rw) \<longrightarrow>
      list_all (\<lambda>n. operator_node_populated n \<or> leaf_node_populated n)
        (case uo of None \<Rightarrow> [] | Some u \<Rightarrow> nodes u))"
  "(\<forall>sets. mapUserSetChild cs = Inr sets \<longrightarrow> populated_children cs \<longrightarrow>
      list_all (\<lambda>n. operator_node_populated n \<or> leaf_node_populated n) (nodes_list sets))"
proof (induction rwo and cs rule: mapUserSet_mapUserSetChild.induct)
  case (9 set' children)
  show ?case
  proof (intro allI impI)
    fix sets
    assume "mapUserSetChild (Child_UsersetRewrite set' # children) = Inr sets"
      and p: "populated_children (Child_UsersetRewrite set' # children)"
    then obtain u rest where u: "mapUserSet (Some set') = Inr u"
      and r: "mapUserSetChild children = Inr rest" and s: "sets = u # rest"
      by (auto split: sum.splits)
    from 9(1) u p have 1: "list_all (\<lambda>n. operator_node_populated n \<or> leaf_node_populated n)
        (case u of None \<Rightarrow> [] | Some u \<Rightarrow> nodes u)"
      by simp
    from 9(2) [OF u] r p
    have 2: "list_all (\<lambda>n. operator_node_populated n \<or> leaf_node_populated n) (nodes_list rest)"
      by simp
    from 1 2 s show "list_all (\<lambda>n. operator_node_populated n \<or> leaf_node_populated n) (nodes_list sets)"
      by (cases u) simp_all
  qed
qed (auto simp: operator_node_populated_def leaf_node_populated_def
       dest: mapUserSetChild_nonempty split: sum.splits option.splits)

text \<open>
  Claim C10, amended. Every node of a tree the mapper returns has exactly one of the two
  shapes, never both: an operator node (\<^verbatim>\<open>operation\<close> one of the three names, no
  \<^verbatim>\<open>relation\<close>, no \<^verbatim>\<open>permission\<close>) or a leaf (no \<^verbatim>\<open>operation\<close>, no \<^verbatim>\<open>children\<close>).
  The tree is the rewrite tree of the rule. The operator nodes are, in their order, the
  operations of the rule, each with the name of its operation and with the mapped
  children of that operation as its \<^verbatim>\<open>children\<close>. The leaves are, in their order, the
  references of the rule, each with the names its reference carries as \<^verbatim>\<open>relation\<close> and
  \<^verbatim>\<open>permission\<close>. When the rule is populated (each operation has a child with one of the
  three shapes, no name is empty), every node is populated as the claim words it: an
  operator node with \<^verbatim>\<open>operation\<close> and \<^verbatim>\<open>children\<close>, a leaf with \<^verbatim>\<open>relation\<close>.
\<close>

theorem UserSet_node_one_shape:
  assumes "mapUserSet rwo = Inr (Some u)"
  shows "(\<forall>n \<in> set (nodes u).
           (is_operator_node n \<and> \<not> is_leaf_node n) \<or> (is_leaf_node n \<and> \<not> is_operator_node n))
       \<and> (\<exists>rw. rwo = Some rw
            \<and> rewrite_tree rw = Some u
            \<and> map (\<lambda>n. (Operation n, Inr (Children n))) (filter is_operator_node (nodes u)) =
                map (\<lambda>(name, cs). (name, mapUserSetChild cs)) (operations_of rw)
            \<and> map (\<lambda>n. (Relation n, Permission n)) (filter is_leaf_node (nodes u)) = leaf_names rw
            \<and> (populated_rewrite rw \<longrightarrow>
                 (\<forall>n \<in> set (nodes u). operator_node_populated n \<or> leaf_node_populated n)))"
proof
  show "\<forall>n \<in> set (nodes u).
           (is_operator_node n \<and> \<not> is_leaf_node n) \<or> (is_leaf_node n \<and> \<not> is_operator_node n)"
    using mapUserSet_nodes(1) [of rwo] assms by (auto simp: list_all_iff)
next
  from assms obtain rw where rw: "rwo = Some rw" by (cases rwo) auto
  from mapUserSet_rewrite_tree(1) [of rwo] assms rw have t: "rewrite_tree rw = Some u" by simp
  from mapUserSet_operations(1) [of rwo] assms rw
  have o: "map (\<lambda>n. (Operation n, Inr (Children n))) (filter is_operator_node (nodes u)) =
                map (\<lambda>(name, cs). (name, mapUserSetChild cs)) (operations_of rw)"
    by simp
  from mapUserSet_leaf_names(1) [of rwo] assms rw
  have l: "map (\<lambda>n. (Relation n, Permission n)) (filter is_leaf_node (nodes u)) = leaf_names rw"
    by simp
  from mapUserSet_populated(1) [of rwo] assms rw
  have p: "populated_rewrite rw \<longrightarrow>
                 (\<forall>n \<in> set (nodes u). operator_node_populated n \<or> leaf_node_populated n)"
    by (simp add: list_all_iff)
  from rw t o l p show "\<exists>rw. rwo = Some rw
            \<and> rewrite_tree rw = Some u
            \<and> map (\<lambda>n. (Operation n, Inr (Children n))) (filter is_operator_node (nodes u)) =
                map (\<lambda>(name, cs). (name, mapUserSetChild cs)) (operations_of rw)
            \<and> map (\<lambda>n. (Relation n, Permission n)) (filter is_leaf_node (nodes u)) = leaf_names rw
            \<and> (populated_rewrite rw \<longrightarrow>
                 (\<forall>n \<in> set (nodes u). operator_node_populated n \<or> leaf_node_populated n))"
    by blast
qed

text \<open>
  The claim as it is worded fails in both shapes. The union whose only child has none of
  the three shapes maps to a node with an \<^verbatim>\<open>operation\<close> and no children. The union of a
  computed userset whose relation is the empty string has as its child the node with
  every field empty. Neither node is an operator node with children or a leaf with a
  relation.
\<close>

theorem UserSet_node_populated_counterexample:
  "\<not> (\<forall>rwo u. mapUserSet rwo = Inr (Some u) \<longrightarrow>
        (\<forall>n \<in> set (nodes u). operator_node_populated n \<or> leaf_node_populated n))
   \<and> mapUserSet (Some (UsersetRewrite_Union [Child_other])) = Inr (Some (UserSet ''union'' [] [] []))
   \<and> \<not> operator_node_populated (UserSet ''union'' [] [] [])
   \<and> \<not> leaf_node_populated (UserSet ''union'' [] [] [])
   \<and> mapUserSet (Some (UsersetRewrite_Union [Child_ComputedUserset \<lparr>ComputedUserset_Relation = []\<rparr>])) =
       Inr (Some (UserSet ''union'' [] [] [Some (UserSet [] [] [] [])]))
   \<and> \<not> operator_node_populated (UserSet [] [] [] [])
   \<and> \<not> leaf_node_populated (UserSet [] [] [] [])"
proof (intro conjI)
  show "\<not> (\<forall>rwo u. mapUserSet rwo = Inr (Some u) \<longrightarrow>
        (\<forall>n \<in> set (nodes u). operator_node_populated n \<or> leaf_node_populated n))"
  proof
    assume h: "\<forall>rwo u. mapUserSet rwo = Inr (Some u) \<longrightarrow>
        (\<forall>n \<in> set (nodes u). operator_node_populated n \<or> leaf_node_populated n)"
    have "mapUserSet (Some (UsersetRewrite_Union [Child_other])) = Inr (Some (UserSet ''union'' [] [] []))"
      by simp
    with h have "\<forall>n \<in> set (nodes (UserSet ''union'' [] [] [])). operator_node_populated n \<or> leaf_node_populated n"
      by blast
    then show False by (simp add: operator_node_populated_def leaf_node_populated_def)
  qed
qed (simp_all add: operator_node_populated_def leaf_node_populated_def)

theorem UserSet_node_one_shape_witness:
  "mapUserSet (Some (UsersetRewrite_Intersection
        [Child_ComputedUserset \<lparr>ComputedUserset_Relation = ''viewer''\<rparr>,
         Child_UsersetRewrite UsersetRewrite_none,
         Child_other,
         Child_UsersetRewrite
           (UsersetRewrite_Union
              [Child_TupleToUserset
                 \<lparr>Tupleset = Some \<lparr>Tupleset_Relation = ''parent''\<rparr>,
                  ComputedUserset = Some \<lparr>ComputedUserset_Relation = ''view''\<rparr>\<rparr>])])) =
     Inr (Some (UserSet ''intersection'' [] []
        [Some (UserSet [] ''viewer'' [] []),
         None,
         Some (UserSet ''union'' [] [] [Some (UserSet [] ''parent'' ''view'' [])])]))
   \<and> list_all
       (\<lambda>n. (is_operator_node n \<and> \<not> is_leaf_node n) \<or> (is_leaf_node n \<and> \<not> is_operator_node n))
       (nodes (UserSet ''intersection'' [] []
        [Some (UserSet [] ''viewer'' [] []),
         None,
         Some (UserSet ''union'' [] [] [Some (UserSet [] ''parent'' ''view'' [])])]))
   \<and> rewrite_tree (UsersetRewrite_Intersection
        [Child_ComputedUserset \<lparr>ComputedUserset_Relation = ''viewer''\<rparr>,
         Child_UsersetRewrite UsersetRewrite_none,
         Child_other,
         Child_UsersetRewrite
           (UsersetRewrite_Union
              [Child_TupleToUserset
                 \<lparr>Tupleset = Some \<lparr>Tupleset_Relation = ''parent''\<rparr>,
                  ComputedUserset = Some \<lparr>ComputedUserset_Relation = ''view''\<rparr>\<rparr>])]) =
       Some (UserSet ''intersection'' [] []
        [Some (UserSet [] ''viewer'' [] []),
         None,
         Some (UserSet ''union'' [] [] [Some (UserSet [] ''parent'' ''view'' [])])])
   \<and> map (\<lambda>n. (Relation n, Permission n)) (filter is_leaf_node (nodes (UserSet ''intersection'' [] []
        [Some (UserSet [] ''viewer'' [] []),
         None,
         Some (UserSet ''union'' [] [] [Some (UserSet [] ''parent'' ''view'' [])])]))) =
       [(''viewer'', []), (''parent'', ''view'')]
   \<and> populated_rewrite (UsersetRewrite_Intersection
        [Child_ComputedUserset \<lparr>ComputedUserset_Relation = ''viewer''\<rparr>,
         Child_UsersetRewrite UsersetRewrite_none,
         Child_other,
         Child_UsersetRewrite
           (UsersetRewrite_Union
              [Child_TupleToUserset
                 \<lparr>Tupleset = Some \<lparr>Tupleset_Relation = ''parent''\<rparr>,
                  ComputedUserset = Some \<lparr>ComputedUserset_Relation = ''view''\<rparr>\<rparr>])])
   \<and> list_all (\<lambda>n. operator_node_populated n \<or> leaf_node_populated n)
       (nodes (UserSet ''intersection'' [] []
        [Some (UserSet [] ''viewer'' [] []),
         None,
         Some (UserSet ''union'' [] [] [Some (UserSet [] ''parent'' ''view'' [])])]))"
  (is "mapUserSet (Some ?RW) = Inr (Some ?U) \<and> _")
proof -
  have m: "mapUserSet (Some ?RW) = Inr (Some ?U)" by simp
  have p: "populated_rewrite ?RW" by simp
  have n: "leaf_names ?RW = [(''viewer'', []), (''parent'', ''view'')]" by simp
  from UserSet_node_one_shape [OF m] obtain rw where rw: "Some ?RW = Some rw"
    and t: "rewrite_tree rw = Some ?U"
    and l: "map (\<lambda>n. (Relation n, Permission n)) (filter is_leaf_node (nodes ?U)) = leaf_names rw"
    and q: "populated_rewrite rw \<longrightarrow>
                 (\<forall>n \<in> set (nodes ?U). operator_node_populated n \<or> leaf_node_populated n)"
    and a: "\<forall>n \<in> set (nodes ?U).
           (is_operator_node n \<and> \<not> is_leaf_node n) \<or> (is_leaf_node n \<and> \<not> is_operator_node n)"
    by blast
  from rw have e: "rw = ?RW" by simp
  from a have 1: "list_all
       (\<lambda>n. (is_operator_node n \<and> \<not> is_leaf_node n) \<or> (is_leaf_node n \<and> \<not> is_operator_node n))
       (nodes ?U)"
    by (simp only: list_all_iff)
  from t have 2: "rewrite_tree ?RW = Some ?U" by (simp only: e)
  from l have "map (\<lambda>n. (Relation n, Permission n)) (filter is_leaf_node (nodes ?U)) = leaf_names ?RW"
    by (simp only: e)
  then have 3: "map (\<lambda>n. (Relation n, Permission n)) (filter is_leaf_node (nodes ?U)) =
      [(''viewer'', []), (''parent'', ''view'')]"
    by (simp only: n)
  from q p have "\<forall>n \<in> set (nodes ?U). operator_node_populated n \<or> leaf_node_populated n"
    by (simp only: e simp_thms)
  then have 4: "list_all (\<lambda>n. operator_node_populated n \<or> leaf_node_populated n) (nodes ?U)"
    by (simp only: list_all_iff)
  show ?thesis by (intro conjI m 1 2 3 p 4)
qed

subsection \<open>The comment extractor\<close>


lemma White_Space_nonempty: "r \<in> set White_Space \<Longrightarrow> r \<noteq> []"
  by (auto simp: White_Space_def asciiSpace_def)






lemma TrimSpace_Nil: "TrimSpace [] = []"
  by code_simp
lemma getMetadataComments_range_valid:
  "list_all (\<lambda>d. TypeUrl d = DocCommentTypeUrl \<longrightarrow> 2 \<le> length (Value d)) ds \<Longrightarrow>
   \<exists>s. getMetadataComments_range ds c = Inr s"
  by (induction ds arbitrary: c) auto

lemma getMetadataComments_range_invalid:
  "\<not> list_all (\<lambda>d. TypeUrl d = DocCommentTypeUrl \<longrightarrow> 2 \<le> length (Value d)) ds \<Longrightarrow>
   getMetadataComments_range ds c = Inl (Panic slice_bounds_out_of_range)"
  by (induction ds arbitrary: c) auto

lemma getMetadataComments_range_none:
  "\<not> list_ex (\<lambda>d. TypeUrl d = DocCommentTypeUrl) ds \<Longrightarrow> getMetadataComments_range ds c = Inr c"
  by (induction ds arbitrary: c) auto

lemma ms_getMetadataComments_range_valid:
  "list_all (\<lambda>d. TypeUrl d = DocCommentTypeUrl \<longrightarrow> 2 \<le> length (Value d)) ds \<Longrightarrow>
   \<exists>s. ms_getMetadataComments_range ds c = Inr s"
  by (induction ds arbitrary: c) auto

lemma ms_getMetadataComments_range_invalid:
  "\<not> list_all (\<lambda>d. TypeUrl d = DocCommentTypeUrl \<longrightarrow> 2 \<le> length (Value d)) ds \<Longrightarrow>
   ms_getMetadataComments_range ds c = Inl (Panic slice_bounds_out_of_range)"
  by (induction ds arbitrary: c) auto

lemma ms_getMetadataComments_range_none:
  "\<not> list_ex (\<lambda>d. TypeUrl d = DocCommentTypeUrl) ds \<Longrightarrow> ms_getMetadataComments_range ds c = Inr c"
  by (induction ds arbitrary: c) auto

lemma getMetadataComments_valid:
  "valid_metadata m \<Longrightarrow> \<exists>s. getMetadataComments m = Inr s"
  using getMetadataComments_range_valid [of "GetMetadataMessage m" "[]"]
  by (auto simp: valid_metadata_def getMetadataComments_def)

lemma ms_getMetadataComments_valid:
  "valid_metadata m \<Longrightarrow> \<exists>s. ms_getMetadataComments m = Inr s"
  using ms_getMetadataComments_range_valid [of "GetMetadataMessage m" "[]"]
  by (auto simp: valid_metadata_def ms_getMetadataComments_def)

text \<open>
  Claim C4, amended. In both files the comment extractor returns a string exactly for
  the bags each documentation comment of which has at least two bytes of payload; for
  any other bag the slice expression panics. When the bag has no documentation comment
  (the nil bag too) the result is the empty string.
\<close>

theorem getMetadataComments_total_on_valid:
  "(valid_metadata m \<longrightarrow>
      (\<exists>s. getMetadataComments m = Inr s) \<and> (\<exists>s. ms_getMetadataComments m = Inr s))
   \<and> (\<not> valid_metadata m \<longrightarrow>
        getMetadataComments m = Inl (Panic slice_bounds_out_of_range)
        \<and> ms_getMetadataComments m = Inl (Panic slice_bounds_out_of_range))
   \<and> (\<not> has_DocComment m \<longrightarrow>
        getMetadataComments m = Inr [] \<and> ms_getMetadataComments m = Inr [])"
proof (intro conjI impI)
  assume "valid_metadata m"
  then show "\<exists>s. getMetadataComments m = Inr s" by (rule getMetadataComments_valid)
next
  assume "valid_metadata m"
  then show "\<exists>s. ms_getMetadataComments m = Inr s" by (rule ms_getMetadataComments_valid)
next
  assume "\<not> valid_metadata m"
  then show "getMetadataComments m = Inl (Panic slice_bounds_out_of_range)"
    by (simp add: valid_metadata_def getMetadataComments_def getMetadataComments_range_invalid)
next
  assume "\<not> valid_metadata m"
  then show "ms_getMetadataComments m = Inl (Panic slice_bounds_out_of_range)"
    by (simp add: valid_metadata_def ms_getMetadataComments_def ms_getMetadataComments_range_invalid)
next
  assume "\<not> has_DocComment m"
  then show "getMetadataComments m = Inr []"
    by (simp add: has_DocComment_def getMetadataComments_def getMetadataComments_range_none
        TrimSpace_Nil)
next
  assume "\<not> has_DocComment m"
  then show "ms_getMetadataComments m = Inr []"
    by (simp add: has_DocComment_def ms_getMetadataComments_def ms_getMetadataComments_range_none
        TrimSpace_Nil)
qed

text \<open>
  The claim as it is worded fails on a documentation comment with a payload of one
  byte, or of none: the extractor of either file panics.
\<close>

theorem getMetadataComments_short_payload_counterexample:
  "getMetadataComments (Some \<lparr>MetadataMessage = [Any DocCommentTypeUrl [CHR 0x0A]]\<rparr>) =
     Inl (Panic slice_bounds_out_of_range)
   \<and> ms_getMetadataComments (Some \<lparr>MetadataMessage = [Any DocCommentTypeUrl [CHR 0x0A]]\<rparr>) =
     Inl (Panic slice_bounds_out_of_range)
   \<and> getMetadataComments (Some \<lparr>MetadataMessage = [Any DocCommentTypeUrl []]\<rparr>) =
     Inl (Panic slice_bounds_out_of_range)"
  by (simp add: getMetadataComments_def ms_getMetadataComments_def GetMetadataMessage_def)

theorem getMetadataComments_total_on_valid_witness:
  "valid_metadata (Some \<lparr>MetadataMessage =
       [Any ''type.googleapis.com/impl.v1.RelationMetadata'' [CHR 0x08],
        Any DocCommentTypeUrl ([CHR 0x0A, CHR 0x02] @ ''hi'')]\<rparr>)
   \<and> (\<exists>s. getMetadataComments (Some \<lparr>MetadataMessage =
       [Any ''type.googleapis.com/impl.v1.RelationMetadata'' [CHR 0x08],
        Any DocCommentTypeUrl ([CHR 0x0A, CHR 0x02] @ ''hi'')]\<rparr>) = Inr s)
   \<and> (\<exists>s. ms_getMetadataComments (Some \<lparr>MetadataMessage =
       [Any ''type.googleapis.com/impl.v1.RelationMetadata'' [CHR 0x08],
        Any DocCommentTypeUrl ([CHR 0x0A, CHR 0x02] @ ''hi'')]\<rparr>) = Inr s)
   \<and> \<not> has_DocComment (Some \<lparr>MetadataMessage =
       [Any ''type.googleapis.com/impl.v1.RelationMetadata'' [CHR 0x08]]\<rparr>)
   \<and> getMetadataComments (Some \<lparr>MetadataMessage =
       [Any ''type.googleapis.com/impl.v1.RelationMetadata'' [CHR 0x08]]\<rparr>) = Inr []
   \<and> \<not> has_DocComment None
   \<and> getMetadataComments None = Inr []
   \<and> ms_getMetadataComments None = Inr []"
proof -
  have v: "valid_metadata (Some \<lparr>MetadataMessage =
       [Any ''type.googleapis.com/impl.v1.RelationMetadata'' [CHR 0x08],
        Any DocCommentTypeUrl ([CHR 0x0A, CHR 0x02] @ ''hi'')]\<rparr>)"
    by (simp add: valid_metadata_def GetMetadataMessage_def DocCommentTypeUrl_def)
  have n: "\<not> has_DocComment (Some \<lparr>MetadataMessage =
       [Any ''type.googleapis.com/impl.v1.RelationMetadata'' [CHR 0x08]]\<rparr>)"
    by (simp add: has_DocComment_def GetMetadataMessage_def DocCommentTypeUrl_def)
  have n0: "\<not> has_DocComment None"
    by (simp add: has_DocComment_def GetMetadataMessage_def)
  show ?thesis
    using v n n0
      getMetadataComments_total_on_valid [of "Some \<lparr>MetadataMessage =
       [Any ''type.googleapis.com/impl.v1.RelationMetadata'' [CHR 0x08],
        Any DocCommentTypeUrl ([CHR 0x0A, CHR 0x02] @ ''hi'')]\<rparr>"]
      getMetadataComments_total_on_valid [of "Some \<lparr>MetadataMessage =
       [Any ''type.googleapis.com/impl.v1.RelationMetadata'' [CHR 0x08]]\<rparr>"]
      getMetadataComments_total_on_valid [of None]
    by blast
qed












subsection \<open>The caveat mapper\<close>

lemma fold_parameters_other:
  "k \<notin> fst ` set ps \<Longrightarrow>
   fold (\<lambda>(key, value) parameters. parameters(key \<mapsto> TypeName value)) ps m k = m k"
  by (induction ps arbitrary: m) (auto split: prod.splits)

lemma fold_parameters_lookup:
  "distinct (map fst ps) \<Longrightarrow> (k, t) \<in> set ps \<Longrightarrow>
   fold (\<lambda>(key, value) parameters. parameters(key \<mapsto> TypeName value)) ps m k = Some (TypeName t)"
proof (induction ps arbitrary: m)
  case Nil
  then show ?case by simp
next
  case (Cons a ps)
  show ?case
  proof (cases "(k, t) = a")
    case True
    from Cons.prems(1) have "fst a \<notin> set (map fst ps)" by simp
    with True have "k \<notin> set (map fst ps)" by (metis fst_conv)
    then have "k \<notin> fst ` set ps" by simp
    then have "fold (\<lambda>(key, value) parameters. parameters(key \<mapsto> TypeName value)) ps
                 (m(k \<mapsto> TypeName t)) k = (m(k \<mapsto> TypeName t)) k"
      by (rule fold_parameters_other)
    moreover from True have "a = (k, t)" by simp
    moreover have "(m(k \<mapsto> TypeName t)) k = Some (TypeName t)" by simp
    ultimately show ?thesis by (simp del: fun_upd_apply)
  next
    case False
    with Cons show ?thesis by auto
  qed
qed

lemma fold_parameters_dom:
  "dom (fold (\<lambda>(key, value) parameters. parameters(key \<mapsto> TypeName value)) ps m) =
     dom m \<union> fst ` set ps"
  by (induction ps arbitrary: m) (auto split: prod.splits)

text \<open>
  Claim C2, amended. For a caveat definition with valid metadata (the keys of the map
  \<^verbatim>\<open>ParameterTypes\<close> are distinct), the caveat mapper of \<^verbatim>\<open>mapSchema.go\<close> returns a
  caveat whose \<^verbatim>\<open>parameters\<close> is a map with exactly the declared names as keys, each
  mapped to its declared type name. The caveat mapper of \<^verbatim>\<open>main.go\<close> returns the
  sequence of the declared type names, one for each parameter in the order of the
  iteration, without the names.
\<close>

theorem mapCaveat_parameters:
  assumes "distinct (map fst (ParameterTypes c))" and "valid_metadata (cav_Metadata c)"
  shows "(\<exists>cav. ms_mapCaveat c = Inr cav
            \<and> ms_Caveat_Name cav = cav_Name c
            \<and> dom (ms_Caveat_Parameters cav) = fst ` set (ParameterTypes c)
            \<and> (\<forall>(k, t) \<in> set (ParameterTypes c). ms_Caveat_Parameters cav k = Some (TypeName t)))
       \<and> (\<exists>cav. mapCaveat c = Inr cav
            \<and> Caveat_Name cav = cav_Name c
            \<and> Caveat_Parameters cav = map (\<lambda>(k, t). TypeName t) (ParameterTypes c))"
proof
  from assms(2) obtain s where s: "ms_getMetadataComments (cav_Metadata c) = Inr s"
    using ms_getMetadataComments_valid by blast
  let ?cav = "\<lparr>ms_Caveat_Name = cav_Name c,
     ms_Caveat_Parameters =
       fold (\<lambda>(key, value) parameters. parameters(key \<mapsto> TypeName value)) (ParameterTypes c) Map.empty,
     ms_Caveat_Comment = s\<rparr>"
  have 1: "ms_mapCaveat c = Inr ?cav" using s by (simp add: ms_mapCaveat_def)
  have 2: "dom (ms_Caveat_Parameters ?cav) = fst ` set (ParameterTypes c)"
    by (simp add: fold_parameters_dom)
  have 3: "\<forall>(k, t) \<in> set (ParameterTypes c). ms_Caveat_Parameters ?cav k = Some (TypeName t)"
    using assms(1) by (auto simp: fold_parameters_lookup)
  from 1 2 3 show "\<exists>cav. ms_mapCaveat c = Inr cav
            \<and> ms_Caveat_Name cav = cav_Name c
            \<and> dom (ms_Caveat_Parameters cav) = fst ` set (ParameterTypes c)
            \<and> (\<forall>(k, t) \<in> set (ParameterTypes c). ms_Caveat_Parameters cav k = Some (TypeName t))"
    by (intro exI [of _ ?cav]) simp
next
  from assms(2) obtain s where s: "getMetadataComments (cav_Metadata c) = Inr s"
    using getMetadataComments_valid by blast
  then show "\<exists>cav. mapCaveat c = Inr cav
            \<and> Caveat_Name cav = cav_Name c
            \<and> Caveat_Parameters cav = map (\<lambda>(k, t). TypeName t) (ParameterTypes c)"
    by (simp add: mapCaveat_def)
qed

text \<open>
  The claim as it is worded fails for the caveat mapper of \<^verbatim>\<open>main.go\<close>: the
  parameters \<^verbatim>\<open>{ip: "ipaddress", limit: "int"}\<close> map to the list of the two type
  names, and two caveats that differ in the name of their parameter only map to the
  same result.
\<close>

theorem mapCaveat_parameters_counterexample:
  "mapCaveat \<lparr>cav_Name = ''c'',
      ParameterTypes = [(''ip'', \<lparr>TypeName = ''ipaddress''\<rparr>), (''limit'', \<lparr>TypeName = ''int''\<rparr>)],
      cav_Metadata = None\<rparr> =
     Inr \<lparr>Caveat_Name = ''c'', Caveat_Parameters = [''ipaddress'', ''int''], Caveat_Comment = []\<rparr>
   \<and> mapCaveat \<lparr>cav_Name = ''c'', ParameterTypes = [(''ip'', \<lparr>TypeName = ''int''\<rparr>)],
        cav_Metadata = None\<rparr> =
     mapCaveat \<lparr>cav_Name = ''c'', ParameterTypes = [(''limit'', \<lparr>TypeName = ''int''\<rparr>)],
        cav_Metadata = None\<rparr>"
  by (simp add: mapCaveat_def getMetadataComments_def GetMetadataMessage_def TrimSpace_Nil)

theorem mapCaveat_parameters_witness:
  "distinct (map fst [(''ip'', \<lparr>TypeName = ''ipaddress''\<rparr>), (''limit'', \<lparr>TypeName = ''int''\<rparr>)])
   \<and> valid_metadata None
   \<and> ms_mapCaveat \<lparr>cav_Name = ''c'',
      ParameterTypes = [(''ip'', \<lparr>TypeName = ''ipaddress''\<rparr>), (''limit'', \<lparr>TypeName = ''int''\<rparr>)],
      cav_Metadata = None\<rparr> =
     Inr \<lparr>ms_Caveat_Name = ''c'',
          ms_Caveat_Parameters = [''ip'' \<mapsto> ''ipaddress'', ''limit'' \<mapsto> ''int''],
          ms_Caveat_Comment = []\<rparr>
   \<and> dom [''ip'' \<mapsto> ''ipaddress'', ''limit'' \<mapsto> ''int''] = {''ip'', ''limit''}"
  using mapCaveat_parameters [of "\<lparr>cav_Name = ''c'',
      ParameterTypes = [(''ip'', \<lparr>TypeName = ''ipaddress''\<rparr>), (''limit'', \<lparr>TypeName = ''int''\<rparr>)],
      cav_Metadata = None\<rparr>"]
  by (simp add: ms_mapCaveat_def ms_getMetadataComments_def GetMetadataMessage_def TrimSpace_Nil
      valid_metadata_def)

subsection \<open>The definition mapper\<close>

lemma kinds_differ: "RelationMetadata_RELATION \<noteq> RelationMetadata_PERMISSION"
  by (simp add: RelationMetadata_RELATION_def RelationMetadata_PERMISSION_def)

lemma mapRelation_valid:
  "valid_relation k r \<Longrightarrow> k r = RelationMetadata_RELATION \<Longrightarrow> \<exists>p. mapRelation r = Inr p"
  using getMetadataComments_valid [of "rel_Metadata r"]
  by (auto simp: valid_relation_def mapRelation_def)

lemma ms_mapRelation_valid:
  "valid_relation k r \<Longrightarrow> k r = RelationMetadata_RELATION \<Longrightarrow> \<exists>p. ms_mapRelation r = Inr p"
  using ms_getMetadataComments_valid [of "rel_Metadata r"]
  by (auto simp: valid_relation_def ms_mapRelation_def)

lemma mapPermission_valid:
  "valid_relation k r \<Longrightarrow> k r = RelationMetadata_PERMISSION \<Longrightarrow> \<exists>p. mapPermission r = Inr p"
  using getMetadataComments_valid [of "rel_Metadata r"]
    mapUserSet_complete(1) [of "rel_UsersetRewrite r"]
  by (auto simp: valid_relation_def mapPermission_def)

lemma ms_mapPermission_valid:
  "valid_relation k r \<Longrightarrow> \<exists>p. ms_mapPermission r = Inr p"
  using ms_getMetadataComments_valid [of "rel_Metadata r"]
  by (auto simp: valid_relation_def ms_mapPermission_def)

lemma mapDefinition_range_wellformed:
  "list_all (\<lambda>r. recognized k r \<and> valid_relation k r) rs \<Longrightarrow>
   \<exists>rels perms. mapDefinition_range k rs R P = Inr (R @ rels, P @ perms)
     \<and> map Inr rels = map mapRelation (filter (\<lambda>r. k r = RelationMetadata_RELATION) rs)
     \<and> map Inr perms = map mapPermission (filter (\<lambda>r. k r = RelationMetadata_PERMISSION) rs)"
proof (induction rs arbitrary: R P)
  case Nil
  then show ?case by simp
next
  case (Cons r rs)
  then have rest: "list_all (\<lambda>r. recognized k r \<and> valid_relation k r) rs"
    and rec: "recognized k r" and val: "valid_relation k r" by simp_all
  show ?case
  proof (cases "k r = RelationMetadata_PERMISSION")
    case True
    with val obtain p where p: "mapPermission r = Inr p" using mapPermission_valid by blast
    from Cons.IH [OF rest, of R "P @ [p]"] obtain rels perms where
      "mapDefinition_range k rs R (P @ [p]) = Inr (R @ rels, (P @ [p]) @ perms)"
      "map Inr rels = map mapRelation (filter (\<lambda>r. k r = RelationMetadata_RELATION) rs)"
      "map Inr perms = map mapPermission (filter (\<lambda>r. k r = RelationMetadata_PERMISSION) rs)"
      by blast
    with True p kinds_differ show ?thesis
      by (intro exI [of _ rels] exI [of _ "p # perms"]) simp
  next
    case False
    with rec have rel: "k r = RelationMetadata_RELATION" by (simp add: recognized_def)
    with val obtain p where p: "mapRelation r = Inr p" using mapRelation_valid by blast
    from Cons.IH [OF rest, of "R @ [p]" P] obtain rels perms where
      "mapDefinition_range k rs (R @ [p]) P = Inr ((R @ [p]) @ rels, P @ perms)"
      "map Inr rels = map mapRelation (filter (\<lambda>r. k r = RelationMetadata_RELATION) rs)"
      "map Inr perms = map mapPermission (filter (\<lambda>r. k r = RelationMetadata_PERMISSION) rs)"
      by blast
    with False rel p show ?thesis
      by (intro exI [of _ "p # rels"] exI [of _ perms]) simp
  qed
qed

lemma ms_mapDefinition_range_wellformed:
  "list_all (\<lambda>r. recognized k r \<and> valid_relation k r) rs \<Longrightarrow>
   \<exists>rels perms. ms_mapDefinition_range k rs R P = Inr (R @ rels, P @ perms)
     \<and> map Inr rels = map ms_mapRelation (filter (\<lambda>r. k r = RelationMetadata_RELATION) rs)
     \<and> map Inr perms = map ms_mapPermission (filter (\<lambda>r. k r = RelationMetadata_PERMISSION) rs)"
proof (induction rs arbitrary: R P)
  case Nil
  then show ?case by simp
next
  case (Cons r rs)
  then have rest: "list_all (\<lambda>r. recognized k r \<and> valid_relation k r) rs"
    and rec: "recognized k r" and val: "valid_relation k r" by simp_all
  show ?case
  proof (cases "k r = RelationMetadata_PERMISSION")
    case True
    from val obtain p where p: "ms_mapPermission r = Inr p" using ms_mapPermission_valid by blast
    from Cons.IH [OF rest, of R "P @ [p]"] obtain rels perms where
      "ms_mapDefinition_range k rs R (P @ [p]) = Inr (R @ rels, (P @ [p]) @ perms)"
      "map Inr rels = map ms_mapRelation (filter (\<lambda>r. k r = RelationMetadata_RELATION) rs)"
      "map Inr perms = map ms_mapPermission (filter (\<lambda>r. k r = RelationMetadata_PERMISSION) rs)"
      by blast
    with True p kinds_differ show ?thesis
      by (intro exI [of _ rels] exI [of _ "p # perms"]) simp
  next
    case False
    with rec have rel: "k r = RelationMetadata_RELATION" by (simp add: recognized_def)
    with val obtain p where p: "ms_mapRelation r = Inr p" using ms_mapRelation_valid by blast
    from Cons.IH [OF rest, of "R @ [p]" P] obtain rels perms where
      "ms_mapDefinition_range k rs (R @ [p]) P = Inr ((R @ [p]) @ rels, P @ perms)"
      "map Inr rels = map ms_mapRelation (filter (\<lambda>r. k r = RelationMetadata_RELATION) rs)"
      "map Inr perms = map ms_mapPermission (filter (\<lambda>r. k r = RelationMetadata_PERMISSION) rs)"
      by blast
    with False rel p show ?thesis
      by (intro exI [of _ "p # rels"] exI [of _ perms]) simp
  qed
qed

lemma partition_lengths:
  "list_all (\<lambda>r. recognized k r \<and> valid_relation k r) rs \<Longrightarrow>
   length (filter (\<lambda>r. k r = RelationMetadata_RELATION) rs)
     + length (filter (\<lambda>r. k r = RelationMetadata_PERMISSION) rs) = length rs"
  using kinds_differ by (induction rs) (auto simp: recognized_def)


lemma mapDefinition_wellformed:
  assumes "wellformed_definition k def"
  shows "\<exists>d. mapDefinition k def = Inr d
            \<and> map Inr (Definition_Relations d) =
                map mapRelation (filter (\<lambda>r. k r = RelationMetadata_RELATION) (def_Relation def))
            \<and> map Inr (Definition_Permissions d) =
                map mapPermission (filter (\<lambda>r. k r = RelationMetadata_PERMISSION) (def_Relation def))
            \<and> length (Definition_Relations d) + length (Definition_Permissions d) =
                length (def_Relation def)"
proof -
  from assms have rs: "list_all (\<lambda>r. recognized k r \<and> valid_relation k r) (def_Relation def)"
    and vm: "valid_metadata (def_Metadata def)"
    by (simp_all add: wellformed_definition_def)
  note len = partition_lengths [OF rs]
  from mapDefinition_range_wellformed [OF rs, of "[]" "[]"] obtain rels perms where
    r: "mapDefinition_range k (def_Relation def) [] [] = Inr (rels, perms)"
    and m1: "map Inr rels = map mapRelation (filter (\<lambda>r. k r = RelationMetadata_RELATION) (def_Relation def))"
    and m2: "map Inr perms = map mapPermission (filter (\<lambda>r. k r = RelationMetadata_PERMISSION) (def_Relation def))"
    by auto
  from vm obtain s where s: "getMetadataComments (def_Metadata def) = Inr s"
    using getMetadataComments_valid by blast
  from m1 have l1: "length rels = length (filter (\<lambda>r. k r = RelationMetadata_RELATION) (def_Relation def))"
    by (metis length_map)
  from m2 have l2: "length perms = length (filter (\<lambda>r. k r = RelationMetadata_PERMISSION) (def_Relation def))"
    by (metis length_map)
  from r s m1 m2 l1 l2 len show ?thesis
    by (simp add: mapDefinition_def Let_def)
qed

lemma ms_mapDefinition_wellformed:
  assumes "wellformed_definition k def"
  shows "\<exists>d. ms_mapDefinition k def = Inr d
            \<and> map Inr (ms_Definition_Relations d) =
                map ms_mapRelation (filter (\<lambda>r. k r = RelationMetadata_RELATION) (def_Relation def))
            \<and> map Inr (ms_Definition_Permissions d) =
                map ms_mapPermission (filter (\<lambda>r. k r = RelationMetadata_PERMISSION) (def_Relation def))
            \<and> length (ms_Definition_Relations d) + length (ms_Definition_Permissions d) =
                length (def_Relation def)"
proof -
  from assms have rs: "list_all (\<lambda>r. recognized k r \<and> valid_relation k r) (def_Relation def)"
    and vm: "valid_metadata (def_Metadata def)"
    by (simp_all add: wellformed_definition_def)
  note len = partition_lengths [OF rs]
  from ms_mapDefinition_range_wellformed [OF rs, of "[]" "[]"] obtain rels perms where
    r: "ms_mapDefinition_range k (def_Relation def) [] [] = Inr (rels, perms)"
    and m1: "map Inr rels = map ms_mapRelation (filter (\<lambda>r. k r = RelationMetadata_RELATION) (def_Relation def))"
    and m2: "map Inr perms = map ms_mapPermission (filter (\<lambda>r. k r = RelationMetadata_PERMISSION) (def_Relation def))"
    by auto
  from vm obtain s where s: "ms_getMetadataComments (def_Metadata def) = Inr s"
    using ms_getMetadataComments_valid by blast
  from m1 have l1: "length rels = length (filter (\<lambda>r. k r = RelationMetadata_RELATION) (def_Relation def))"
    by (metis length_map)
  from m2 have l2: "length perms = length (filter (\<lambda>r. k r = RelationMetadata_PERMISSION) (def_Relation def))"
    by (metis length_map)
  from r s m1 m2 l1 l2 len show ?thesis
    by (simp add: ms_mapDefinition_def Let_def)
qed

text \<open>
  Claim C6. For a well-formed definition (the kind of each relation is one of the two,
  and the relations and the metadata are valid), the definition mapper of either file
  returns a definition whose \<^verbatim>\<open>relations\<close> are the images of the storage relations, in
  their order, and whose \<^verbatim>\<open>permissions\<close> are the images of the permissions, in their
  order; the two groups together have as many entries as the definition has relations,
  so each relation is mapped once, into one group.
\<close>

theorem mapDefinition_partition:
  assumes "wellformed_definition k def"
  shows "(\<exists>d. mapDefinition k def = Inr d
            \<and> map Inr (Definition_Relations d) =
                map mapRelation (filter (\<lambda>r. k r = RelationMetadata_RELATION) (def_Relation def))
            \<and> map Inr (Definition_Permissions d) =
                map mapPermission (filter (\<lambda>r. k r = RelationMetadata_PERMISSION) (def_Relation def))
            \<and> length (Definition_Relations d) + length (Definition_Permissions d) =
                length (def_Relation def))
       \<and> (\<exists>d. ms_mapDefinition k def = Inr d
            \<and> map Inr (ms_Definition_Relations d) =
                map ms_mapRelation (filter (\<lambda>r. k r = RelationMetadata_RELATION) (def_Relation def))
            \<and> map Inr (ms_Definition_Permissions d) =
                map ms_mapPermission (filter (\<lambda>r. k r = RelationMetadata_PERMISSION) (def_Relation def))
            \<and> length (ms_Definition_Relations d) + length (ms_Definition_Permissions d) =
                length (def_Relation def))"
  using mapDefinition_wellformed [OF assms] ms_mapDefinition_wellformed [OF assms] by blast

text \<open>
  The object type \<^verbatim>\<open>ns/document\<close> with the storage relation \<^verbatim>\<open>viewer\<close> and the
  permission \<^verbatim>\<open>view\<close>, the union of the computed userset \<^verbatim>\<open>viewer\<close>.
\<close>

theorem mapDefinition_partition_witness:
  "wellformed_definition (\<lambda>r. if rel_Name r = ''view'' then RelationMetadata_PERMISSION else RelationMetadata_RELATION)
     \<lparr>def_Name = ''ns/document'',
      def_Relation =
        [\<lparr>rel_Name = ''viewer'', rel_UsersetRewrite = None,
          rel_TypeInformation = Some \<lparr>AllowedDirectRelations =
            [\<lparr>ar_Namespace = ''user'', RelationOrWildcard = Some (AllowedRelation_Relation ''...''),
              RequiredCaveat = None\<rparr>]\<rparr>,
          rel_Metadata = None\<rparr>,
         \<lparr>rel_Name = ''view'',
          rel_UsersetRewrite = Some (UsersetRewrite_Union
            [Child_ComputedUserset \<lparr>ComputedUserset_Relation = ''viewer''\<rparr>]),
          rel_TypeInformation = None,
          rel_Metadata = None\<rparr>],
      def_Metadata = None\<rparr>
   \<and> mapDefinition (\<lambda>r. if rel_Name r = ''view'' then RelationMetadata_PERMISSION else RelationMetadata_RELATION)
     \<lparr>def_Name = ''ns/document'',
      def_Relation =
        [\<lparr>rel_Name = ''viewer'', rel_UsersetRewrite = None,
          rel_TypeInformation = Some \<lparr>AllowedDirectRelations =
            [\<lparr>ar_Namespace = ''user'', RelationOrWildcard = Some (AllowedRelation_Relation ''...''),
              RequiredCaveat = None\<rparr>]\<rparr>,
          rel_Metadata = None\<rparr>,
         \<lparr>rel_Name = ''view'',
          rel_UsersetRewrite = Some (UsersetRewrite_Union
            [Child_ComputedUserset \<lparr>ComputedUserset_Relation = ''viewer''\<rparr>]),
          rel_TypeInformation = None,
          rel_Metadata = None\<rparr>],
      def_Metadata = None\<rparr> =
     Inr \<lparr>Definition_Name = ''document'', Definition_Namespace = ''ns'',
          Definition_Relations =
            [\<lparr>Relation_Name = ''viewer'',
              Relation_Types =
                [\<lparr>RelationType_Type = ''user'', RelationType_Relation = [], RelationType_Caveat = []\<rparr>],
              Relation_Comment = []\<rparr>],
          Definition_Permissions =
            [\<lparr>Permission_Name = ''view'',
              Permission_UserSet = Some (UserSet ''union'' [] [] [Some (UserSet [] ''viewer'' [] [])]),
              Permission_Comment = []\<rparr>],
          Definition_Comment = []\<rparr>"
  (is "wellformed_definition ?K ?D \<and> mapDefinition ?K ?D = ?R")
proof -
  have wf: "wellformed_definition ?K ?D"
    by (simp add: wellformed_definition_def recognized_def valid_relation_def valid_metadata_def
        GetMetadataMessage_def kinds_differ kinds_differ [symmetric])
  have eq: "mapDefinition ?K ?D = ?R"
    by (simp add: kinds_differ kinds_differ [symmetric] GetMetadataMessage_def mapDefinition_def
        mapRelation_def mapPermission_def mapRelationType_def getMetadataComments_def
        TrimSpace_Nil numeral_2_eq_2)
  from mapDefinition_partition [OF wf] wf eq show ?thesis by blast
qed











subsection \<open>The document assembler\<close>

lemma mapDefinition_range_append:
  "mapDefinition_range k (xs @ ys) R P =
     (case mapDefinition_range k xs R P of
        Inl e \<Rightarrow> Inl e
      | Inr (R', P') \<Rightarrow> mapDefinition_range k ys R' P')"
  by (induction xs arbitrary: R P) (auto split: sum.splits)

lemma WriteSchemaTo_definitions_append:
  "WriteSchemaTo_definitions k (xs @ ys) D =
     (case WriteSchemaTo_definitions k xs D of
        Inl e \<Rightarrow> Inl e
      | Inr D' \<Rightarrow> WriteSchemaTo_definitions k ys D')"
  by (induction xs arbitrary: D) (auto split: sum.splits failure.splits)

lemma WriteSchemaTo_definitions_wellformed:
  "list_all (wellformed_definition k) ds \<Longrightarrow> \<exists>D'. WriteSchemaTo_definitions k ds D = Inr D'"
proof (induction ds arbitrary: D)
  case Nil
  show ?case by simp
next
  case (Cons d ds)
  then have "wellformed_definition k d" by simp
  then obtain o' where "mapDefinition k d = Inr o'" using mapDefinition_wellformed by blast
  with Cons show ?case by simp
qed

lemma mapDefinition_range_unrecognized:
  "list_ex (\<lambda>r. \<not> recognized k r) rs \<Longrightarrow> \<exists>f. mapDefinition_range k rs R P = Inl f"
  by (induction rs arbitrary: R P) (auto simp: recognized_def split: sum.splits)

lemma mapDefinition_unrecognized:
  assumes "list_ex (\<lambda>r. \<not> recognized k r) (def_Relation def)"
  shows "\<exists>f. mapDefinition k def = Inl f"
proof -
  from assms obtain f where "mapDefinition_range k (def_Relation def) [] [] = Inl f"
    using mapDefinition_range_unrecognized by blast
  then show ?thesis by (simp add: mapDefinition_def)
qed

lemma WriteSchemaTo_definitions_failure:
  "list_ex (\<lambda>d. \<exists>f. mapDefinition k d = Inl f) ds \<Longrightarrow> \<exists>f. WriteSchemaTo_definitions k ds D = Inl f"
  by (induction ds arbitrary: D) (auto split: sum.splits failure.splits)

lemma mapDefinition_first_unrecognized:
  assumes "def_Relation def = rs @ r # rs'"
    and "list_all (\<lambda>r. recognized k r \<and> valid_relation k r) rs"
    and "\<not> recognized k r"
  shows "mapDefinition k def = Inl (Error (Errorf_unexpected_relation (rel_Name r)))"
proof -
  from mapDefinition_range_wellformed [OF assms(2), of "[]" "[]"] obtain rels perms where
    "mapDefinition_range k rs [] [] = Inr (rels, perms)" by auto
  moreover from assms(3)
  have "mapDefinition_range k (r # rs') rels perms = Inl (Error (Errorf_unexpected_relation (rel_Name r)))"
    by (simp add: recognized_def)
  ultimately have "mapDefinition_range k (def_Relation def) [] [] =
      Inl (Error (Errorf_unexpected_relation (rel_Name r)))"
    by (simp only: assms(1) mapDefinition_range_append sum.case prod.case)
  then show ?thesis by (simp add: mapDefinition_def)
qed

text \<open>
  Claim C5. When the relations before the first one of unrecognized kind, and the
  definitions before its definition, are well-formed, the definition mapper returns the
  error that names the relation, and the document assembler returns that error wrapped
  with the name of the definition and leaves the writer as it was: neither the encoder
  nor the writer is reached. Whatever comes before it, a definition with a relation of
  unrecognized kind is never mapped to a definition, and a schema with such a definition
  never gets past the first loop of the assembler: the call ends with a failure and the
  writer untouched.
\<close>

theorem unrecognized_relation_aborts:
  "(ObjectDefinitions schema = before @ def # after
    \<and> list_all (wellformed_definition k) before
    \<and> def_Relation def = rs @ r # rs'
    \<and> list_all (\<lambda>r. recognized k r \<and> valid_relation k r) rs
    \<and> \<not> recognized k r \<longrightarrow>
      mapDefinition k def = Inl (Error (Errorf_unexpected_relation (rel_Name r)))
      \<and> WriteSchemaTo k Marshal Write schema w =
          (w, Some (Error (Errorf_failed_to_export (def_Name def)
                             (Errorf_unexpected_relation (rel_Name r))))))
   \<and> (list_ex (\<lambda>r. \<not> recognized k r) (def_Relation def) \<longrightarrow>
        (\<exists>f. mapDefinition k def = Inl f))
   \<and> (list_ex (\<lambda>def. list_ex (\<lambda>r. \<not> recognized k r) (def_Relation def)) (ObjectDefinitions schema) \<longrightarrow>
        (\<exists>f. WriteSchemaTo k Marshal Write schema w = (w, Some f)))"
proof (intro conjI impI)
  assume a: "ObjectDefinitions schema = before @ def # after
    \<and> list_all (wellformed_definition k) before
    \<and> def_Relation def = rs @ r # rs'
    \<and> list_all (\<lambda>r. recognized k r \<and> valid_relation k r) rs
    \<and> \<not> recognized k r"
  then have m: "mapDefinition k def = Inl (Error (Errorf_unexpected_relation (rel_Name r)))"
    using mapDefinition_first_unrecognized by blast
  then show "mapDefinition k def = Inl (Error (Errorf_unexpected_relation (rel_Name r)))" .
  from a obtain D where "WriteSchemaTo_definitions k before [] = Inr D"
    using WriteSchemaTo_definitions_wellformed by blast
  moreover from m have "WriteSchemaTo_definitions k (def # after) D =
      Inl (Error (Errorf_failed_to_export (def_Name def) (Errorf_unexpected_relation (rel_Name r))))"
    by simp
  ultimately have "WriteSchemaTo_definitions k (ObjectDefinitions schema) [] =
      Inl (Error (Errorf_failed_to_export (def_Name def) (Errorf_unexpected_relation (rel_Name r))))"
    using a by (simp only: WriteSchemaTo_definitions_append sum.case)
  then show "WriteSchemaTo k Marshal Write schema w =
          (w, Some (Error (Errorf_failed_to_export (def_Name def)
                             (Errorf_unexpected_relation (rel_Name r)))))"
    by (simp add: WriteSchemaTo_def)
next
  assume "list_ex (\<lambda>r. \<not> recognized k r) (def_Relation def)"
  then show "\<exists>f. mapDefinition k def = Inl f" by (rule mapDefinition_unrecognized)
next
  assume "list_ex (\<lambda>def. list_ex (\<lambda>r. \<not> recognized k r) (def_Relation def)) (ObjectDefinitions schema)"
  then have "list_ex (\<lambda>d. \<exists>f. mapDefinition k d = Inl f) (ObjectDefinitions schema)"
    using mapDefinition_unrecognized [of k] unfolding list_ex_iff by blast
  then obtain f where "WriteSchemaTo_definitions k (ObjectDefinitions schema) [] = Inl f"
    using WriteSchemaTo_definitions_failure by blast
  then show "\<exists>f. WriteSchemaTo k Marshal Write schema w = (w, Some f)"
    by (simp add: WriteSchemaTo_def)
qed


theorem unrecognized_relation_aborts_witness:
  "mapDefinition (\<lambda>r. if rel_Name r = ''odd'' then RelationMetadata_UNKNOWN_KIND else RelationMetadata_RELATION)
     \<lparr>def_Name = ''ns/document'',
        def_Relation =
          [\<lparr>rel_Name = ''viewer'', rel_UsersetRewrite = None,
            rel_TypeInformation = Some \<lparr>AllowedDirectRelations =
              [\<lparr>ar_Namespace = ''user'', RelationOrWildcard = Some (AllowedRelation_Relation ''...''),
                RequiredCaveat = None\<rparr>]\<rparr>,
            rel_Metadata = None\<rparr>,
           \<lparr>rel_Name = ''odd'', rel_UsersetRewrite = None, rel_TypeInformation = None,
            rel_Metadata = None\<rparr>],
        def_Metadata = None\<rparr> =
     Inl (Error (Errorf_unexpected_relation ''odd''))
   \<and> WriteSchemaTo (\<lambda>r. if rel_Name r = ''odd'' then RelationMetadata_UNKNOWN_KIND else RelationMetadata_RELATION)
       (\<lambda>doc. Inr ''{}'') (\<lambda>w data. (w @ data, None))
     \<lparr>ObjectDefinitions =
       [\<lparr>def_Name = ''ns/user'', def_Relation = [], def_Metadata = None\<rparr>,
        \<lparr>def_Name = ''ns/document'',
        def_Relation =
          [\<lparr>rel_Name = ''viewer'', rel_UsersetRewrite = None,
            rel_TypeInformation = Some \<lparr>AllowedDirectRelations =
              [\<lparr>ar_Namespace = ''user'', RelationOrWildcard = Some (AllowedRelation_Relation ''...''),
                RequiredCaveat = None\<rparr>]\<rparr>,
            rel_Metadata = None\<rparr>,
           \<lparr>rel_Name = ''odd'', rel_UsersetRewrite = None, rel_TypeInformation = None,
            rel_Metadata = None\<rparr>],
        def_Metadata = None\<rparr>,
        \<lparr>def_Name = ''ns/folder'', def_Relation = [], def_Metadata = None\<rparr>],
      CaveatDefinitions = []\<rparr>
     ''written before'' =
     (''written before'',
      Some (Error (Errorf_failed_to_export ''ns/document'' (Errorf_unexpected_relation ''odd''))))"
  (is "mapDefinition ?K ?d2 = _ \<and> WriteSchemaTo ?K ?M ?W ?S ?w = _")
proof -
  let ?d1 = "\<lparr>def_Name = ''ns/user'', def_Relation = [], def_Metadata = None\<rparr>"
  let ?d3 = "\<lparr>def_Name = ''ns/folder'', def_Relation = [], def_Metadata = None\<rparr>"
  let ?viewer = "\<lparr>rel_Name = ''viewer'', rel_UsersetRewrite = None,
            rel_TypeInformation = Some \<lparr>AllowedDirectRelations =
              [\<lparr>ar_Namespace = ''user'', RelationOrWildcard = Some (AllowedRelation_Relation ''...''),
                RequiredCaveat = None\<rparr>]\<rparr>,
            rel_Metadata = None\<rparr>"
  let ?odd = "\<lparr>rel_Name = ''odd'', rel_UsersetRewrite = None, rel_TypeInformation = None,
            rel_Metadata = None\<rparr>"
  have k: "RelationMetadata_UNKNOWN_KIND \<noteq> RelationMetadata_RELATION"
    "RelationMetadata_UNKNOWN_KIND \<noteq> RelationMetadata_PERMISSION"
    by (simp_all add: RelationMetadata_UNKNOWN_KIND_def RelationMetadata_RELATION_def
        RelationMetadata_PERMISSION_def)
  have h: "ObjectDefinitions ?S = [?d1] @ ?d2 # [?d3]
    \<and> list_all (wellformed_definition ?K) [?d1]
    \<and> def_Relation ?d2 = [?viewer] @ ?odd # []
    \<and> list_all (\<lambda>r. recognized ?K r \<and> valid_relation ?K r) [?viewer]
    \<and> \<not> recognized ?K ?odd"
    using k by (simp add: wellformed_definition_def recognized_def valid_relation_def
        valid_metadata_def GetMetadataMessage_def)
  from unrecognized_relation_aborts [where k = ?K and schema = ?S and Marshal = ?M and Write = ?W and w = ?w,
      THEN conjunct1, rule_format, OF h]
  show ?thesis by simp
qed

end
